theory Spec2Isabelle
  imports Complex_Main "HOL-Library.Code_Target_Nat" "HOL-Library.Sublist"
begin

section \<open>Python strings\<close>

text \<open>
  A Python \<open>str\<close> is a sequence of Unicode code points, and \<open>len\<close> counts code points.
  The pages are Russian, and the sources compare against Cyrillic phrases, so a string is a
  list of code points (\<open>nat\<close>), not a list of bytes. \<open>str\<close> embeds an ASCII literal.
\<close>

type_synonym pystr = "nat list"

definition str :: "string \<Rightarrow> pystr" where
  "str s = map of_char s"

text \<open>\<open>s[i:j]\<close> for \<open>0 \<le> i \<le> j\<close>.\<close>

definition slice :: "nat \<Rightarrow> nat \<Rightarrow> pystr \<Rightarrow> pystr" where
  "slice i j s = drop i (take j s)"

text \<open>
  \<open>str.isspace\<close> of one code point: the 29 white-space code points of CPython
  (\<open>\t \n \v \f \r\<close>, U+001C..U+001F, space, U+0085, U+00A0, U+1680, U+2000..U+200A,
  U+2028, U+2029, U+202F, U+205F, U+3000).
\<close>

definition isspace :: "nat \<Rightarrow> bool" where
  "isspace c = ((9 \<le> c \<and> c \<le> 13) \<or> (28 \<le> c \<and> c \<le> 32) \<or> c = 133 \<or> c = 160 \<or> c = 5760
     \<or> (8192 \<le> c \<and> c \<le> 8202) \<or> c = 8232 \<or> c = 8233 \<or> c = 8239 \<or> c = 8287 \<or> c = 12288)"

definition strip :: "pystr \<Rightarrow> pystr" where
  "strip s = rev (dropWhile isspace (rev (dropWhile isspace s)))"

text \<open>
  The class \<open>\d\<close> of a \<open>str\<close> pattern is the Unicode category Nd. The table lists the first
  code point of every run of ten decimal digits (Unicode 14, the database of CPython 3.11);
  U+1D7CE..U+1D7FF holds five runs.
\<close>

definition decimal_runs :: "nat list" where
  "decimal_runs = [48, 1632, 1776, 1984, 2406, 2534, 2662, 2790, 2918, 3046, 3174, 3302, 3430,
     3558, 3664, 3792, 3872, 4160, 4240, 6112, 6160, 6470, 6608, 6784, 6800, 6992, 7088, 7232,
     7248, 42528, 43216, 43264, 43472, 43504, 43600, 44016, 65296, 66720, 68912, 69734, 69872,
     69942, 70096, 70384, 70736, 70864, 71248, 71360, 71472, 71904, 72016, 72784, 73040, 73120,
     92768, 92864, 93008, 120782, 120792, 120802, 120812, 120822, 123200, 123632, 125264,
     130032]"

definition isdecimal :: "nat \<Rightarrow> bool" where
  "isdecimal c = list_ex (\<lambda>lo. lo \<le> c \<and> c < lo + 10) decimal_runs"

text \<open>The class \<open>[0-9]\<close>.\<close>

definition ascii_digit :: "nat \<Rightarrow> bool" where
  "ascii_digit c = (48 \<le> c \<and> c \<le> 57)"

text \<open>\<open>s.startswith(p)\<close> and \<open>sub in s\<close>.\<close>

fun startswith :: "pystr \<Rightarrow> pystr \<Rightarrow> bool" where
  "startswith s [] = True"
| "startswith [] (p # ps) = False"
| "startswith (c # cs) (p # ps) = (c = p \<and> startswith cs ps)"

fun contains :: "pystr \<Rightarrow> pystr \<Rightarrow> bool" where
  "contains [] sub = (sub = [])"
| "contains (c # cs) sub = (startswith (c # cs) sub \<or> contains cs sub)"

text \<open>\<open>s.split(sep)\<close> for a separator of one code point: never the empty list.\<close>

fun split_on :: "nat \<Rightarrow> pystr \<Rightarrow> pystr list" where
  "split_on sep [] = [[]]"
| "split_on sep (c # cs) =
     (if c = sep then [] # split_on sep cs
      else (case split_on sep cs of [] \<Rightarrow> [[c]] | seg # segs \<Rightarrow> (c # seg) # segs))"

text \<open>\<open>sep.join(parts)\<close>.\<close>

fun join :: "pystr \<Rightarrow> pystr list \<Rightarrow> pystr" where
  "join sep [] = []"
| "join sep [p] = p"
| "join sep (p # q # ps) = p @ sep @ join sep (q # ps)"

text \<open>
  \<open>str.lower\<close>, given for the Latin capitals A..Z and the Cyrillic capitals U+0410..U+042F
  (both 32 below their small letters) and U+0400..U+040F (80 below). Its one use in the
  sources is the test of \<open>text.lower()\<close> against two phrases of Cyrillic small letters and
  a space; no other code point has a lower-case form among those letters, so for that test
  the other rows of the case table do not matter.
\<close>

definition lower_char :: "nat \<Rightarrow> nat" where
  "lower_char c =
     (if (65 \<le> c \<and> c \<le> 90) \<or> (1040 \<le> c \<and> c \<le> 1071) then c + 32
      else if 1024 \<le> c \<and> c \<le> 1039 then c + 80 else c)"

definition lower :: "pystr \<Rightarrow> pystr" where
  "lower s = map lower_char s"

text \<open>
  Matching one pattern letter under \<open>re.IGNORECASE\<close> (the pattern letter \<open>p\<close> is a small
  ASCII letter or a punctuation mark): the letter, its capital, and the three code points
  the \<open>re\<close> module adds (U+0130 and U+0131 for i, U+017F for s, U+212A for k).
\<close>

definition imatch_char :: "nat \<Rightarrow> nat \<Rightarrow> bool" where
  "imatch_char p c =
     (c = p \<or> (97 \<le> p \<and> p \<le> 122 \<and> c + 32 = p)
      \<or> (p = 105 \<and> (c = 304 \<or> c = 305)) \<or> (p = 115 \<and> c = 383) \<or> (p = 107 \<and> c = 8490))"

fun istartswith :: "pystr \<Rightarrow> pystr \<Rightarrow> bool" where
  "istartswith s [] = True"
| "istartswith [] (p # ps) = False"
| "istartswith (c # cs) (p # ps) = (imatch_char p c \<and> istartswith cs ps)"

fun icontains :: "pystr \<Rightarrow> pystr \<Rightarrow> bool" where
  "icontains [] sub = (sub = [])"
| "icontains (c # cs) sub = (istartswith (c # cs) sub \<or> icontains cs sub)"

section \<open>Date normalisation\<close>

text \<open>
  \<open>DATE_DOT_PATTERN = re.compile(r"^(\d{2})\.(\d{2})\.(\d{4})$")\<close>, applied with \<open>match\<close>:
  the three groups, or \<open>None\<close>. Python's \<open>$\<close> also matches before a final newline.
\<close>

definition DATE_DOT_PATTERN_match :: "pystr \<Rightarrow> (pystr \<times> pystr \<times> pystr) option" where
  "DATE_DOT_PATTERN_match s =
     (if (length s = 10 \<or> (length s = 11 \<and> slice 10 11 s = str ''\<newline>''))
         \<and> list_all isdecimal (slice 0 2 s) \<and> slice 2 3 s = str ''.''
         \<and> list_all isdecimal (slice 3 5 s) \<and> slice 5 6 s = str ''.''
         \<and> list_all isdecimal (slice 6 10 s)
      then Some (slice 0 2 s, slice 3 5 s, slice 6 10 s) else None)"

text \<open>\<open>dot_date_to_iso\<close> of both Vedomosti modules.\<close>

definition dot_date_to_iso :: "pystr \<Rightarrow> pystr" where
  "dot_date_to_iso dot_date =
     (case DATE_DOT_PATTERN_match (strip dot_date) of
        None \<Rightarrow> dot_date
      | Some (d, mon, y) \<Rightarrow> y @ str ''-'' @ mon @ str ''-'' @ d)"

text \<open>\<open>re.match(r"^\d{4}-\d{2}-\d{2}", date_text)\<close> as a truth value.\<close>

definition iso_prefix_match :: "pystr \<Rightarrow> bool" where
  "iso_prefix_match s =
     (10 \<le> length s \<and> list_all isdecimal (slice 0 4 s) \<and> slice 4 5 s = str ''-''
      \<and> list_all isdecimal (slice 5 7 s) \<and> slice 7 8 s = str ''-''
      \<and> list_all isdecimal (slice 8 10 s))"

text \<open>
  The date branch that both strategies of the Vedomosti extractors run on a stripped,
  non-empty \<open>date_text\<close>: \<open>Some date_iso\<close>, or \<open>None\<close> where the first strategy skips the
  element (\<open>continue\<close>) and the second leaves \<open>date_iso\<close> unset.
\<close>

definition vedomosti_date_iso :: "pystr \<Rightarrow> pystr option" where
  "vedomosti_date_iso date_text =
     (if iso_prefix_match date_text then Some (slice 0 10 date_text)
      else if DATE_DOT_PATTERN_match date_text \<noteq> None then Some (dot_date_to_iso date_text)
      else None)"

text \<open>Interfax: \<open>date_str = datetime_val.replace("T", " ")[:16]\<close>.\<close>

definition interfax_date_str :: "pystr \<Rightarrow> pystr" where
  "interfax_date_str datetime_val = take 16 (map (\<lambda>c. if c = 84 then 32 else c) datetime_val)"

section \<open>Finam: the date in the URL\<close>

text \<open>
  A match of \<open>-([0-9]{8})-([0-9]{4})(?:/|$)\<close> at the start of \<open>s\<close>, with its two groups.
\<close>

definition token_at :: "pystr \<Rightarrow> (pystr \<times> pystr) option" where
  "token_at s =
     (if 14 \<le> length s \<and> slice 0 1 s = str ''-'' \<and> list_all ascii_digit (slice 1 9 s)
         \<and> slice 9 10 s = str ''-'' \<and> list_all ascii_digit (slice 10 14 s)
         \<and> (slice 14 15 s = str ''/'' \<or> length s = 14 \<or> drop 14 s = str ''\<newline>'')
      then Some (slice 1 9 s, slice 10 14 s) else None)"

text \<open>\<open>re.search\<close>: the leftmost match.\<close>

fun search_token :: "pystr \<Rightarrow> (pystr \<times> pystr) option" where
  "search_token [] = None"
| "search_token (c # cs) =
     (case token_at (c # cs) of Some g \<Rightarrow> Some g | None \<Rightarrow> search_token cs)"

definition parse_datetime_from_url :: "pystr \<Rightarrow> pystr" where
  "parse_datetime_from_url url =
     (case search_token url of
        None \<Rightarrow> []
      | Some (yyyymmdd, hhmm) \<Rightarrow>
          slice 0 4 yyyymmdd @ str ''-'' @ slice 4 6 yyyymmdd @ str ''-'' @ slice 6 8 yyyymmdd
          @ str '' '' @ slice 0 2 hhmm @ str '':'' @ slice 2 4 hhmm)"

section \<open>News items and the accumulator\<close>

record news_item =
  date :: pystr
  title :: pystr

type_synonym key = "pystr \<times> pystr"

definition key_of :: "news_item \<Rightarrow> key" where
  "key_of item = (date item, title item)"

text \<open>
  The merge loop that every harvester (and the AKM and Finam \<open>main\<close>) runs over a chunk:
  \<open>for item in chunk: key = (item["date"], item["title"]); if key not in seen: seen.add(key);
  collected.append(item); added += 1\<close>. The state is the three variables.
\<close>

fun merge_chunk ::
  "news_item list \<Rightarrow> news_item list \<times> key set \<times> nat \<Rightarrow> news_item list \<times> key set \<times> nat" where
  "merge_chunk [] st = st"
| "merge_chunk (item # chunk) (collected, seen, added) =
     (if key_of item \<notin> seen
      then merge_chunk chunk (collected @ [item], insert (key_of item) seen, added + 1)
      else merge_chunk chunk (collected, seen, added))"

text \<open>The positions of a URL where a date token stands.\<close>

definition token_positions :: "pystr \<Rightarrow> nat list" where
  "token_positions url = filter (\<lambda>i. token_at (drop i url) \<noteq> None) [0..<length url]"


text \<open>A list without the repetitions of its elements, each kept where it stands first.\<close>

abbreviation first_occurrences :: "'a list \<Rightarrow> 'a list" where
  "first_occurrences xs \<equiv> rev (remdups (rev xs))"

section \<open>The harvest loops\<close>

text \<open>
  The browser session is the environment of a harvester. What a round reads from it is a
  record of observations, one per round number; a read that raises inside the round's
  \<open>try\<close> block is \<open>None\<close>. \<open>load_more_clicked\<close> is the flag the locator cascade leaves
  behind, \<open>page_source\<close> is \<open>driver.page_source\<close>, the counts are the lengths of
  \<open>driver.find_elements(...)\<close>. The extractor a loop calls on a page source is a parameter,
  so the loops are independent of the page type. Sleeps and scrolling have no other effect
  on the loop than what the observations hold. The numbers \<open>0.3\<close> and \<open>0.5\<close> are exact
  rationals here: for list lengths the rounded product of the source compares with an
  integer as the exact product does.
\<close>

datatype flow = Continue | Break

record click_obs =
  load_more_clicked :: bool

record 'page page_obs = click_obs +
  page_source :: "'page option"

record 'page vedomosti_obs = "'page page_obs" +
  time_count :: "nat option"
  time_count_check :: "nat option"
  time_count2 :: "nat option"
  page_source2 :: "'page option"

record finam_obs = click_obs +
  new_height :: int
  current_count :: "nat option"
  current_count2 :: "nat option"

text \<open>
  The variables of a loop. \<open>rounds\<close> is \<open>round_num + 1\<close> of the last round entered (zero
  before the first): the number of rounds performed.
\<close>

record loop_state =
  rounds :: nat

record accumulator = loop_state +
  collected :: "news_item list"
  seen :: "key set"

record interfax_state = accumulator +
  no_new_count :: nat

record vedomosti_state = accumulator +
  no_click_count :: nat

record finam_state = loop_state +
  last_height :: int
  last_news_count :: nat
  same_height_count :: nat

subsection \<open>Interfax\<close>

definition interfax_round ::
  "('page \<Rightarrow> news_item list) \<Rightarrow> int \<Rightarrow> 'page page_obs \<Rightarrow> interfax_state
     \<Rightarrow> flow \<times> interfax_state" where
  "interfax_round extract_news_from_page target_count ob st =
     (let st1 = (if load_more_clicked ob then st
                 else st\<lparr>no_new_count := no_new_count st + 1\<rparr>)
      in if \<not> load_more_clicked ob \<and> 3 \<le> no_new_count st1 then (Break, st1)
         else
           let st2 =
             (case page_source ob of
                None \<Rightarrow> st1
              | Some html_content \<Rightarrow>
                  (case merge_chunk (extract_news_from_page html_content)
                          (collected st1, seen st1, 0) of
                     (c, s, added) \<Rightarrow>
                       st1\<lparr>collected := c, seen := s,
                           no_new_count := (if 0 < added then 0 else no_new_count st1)\<rparr>))
           in if target_count \<noteq> 0 \<and> target_count \<le> int (length (collected st2))
              then (Break, st2) else (Continue, st2))"

text \<open>\<open>for round_num in range(max_clicks)\<close>: the first number counts the rounds left.\<close>

fun interfax_loop ::
  "('page \<Rightarrow> news_item list) \<Rightarrow> int \<Rightarrow> (nat \<Rightarrow> 'page page_obs) \<Rightarrow> nat \<Rightarrow> nat
     \<Rightarrow> interfax_state \<Rightarrow> interfax_state" where
  "interfax_loop ex target_count env 0 round_num st = st"
| "interfax_loop ex target_count env (Suc n) round_num st =
     (case interfax_round ex target_count (env round_num) (st\<lparr>rounds := Suc round_num\<rparr>) of
        (Break, st') \<Rightarrow> st'
      | (Continue, st') \<Rightarrow> interfax_loop ex target_count env n (Suc round_num) st')"

definition interfax_run ::
  "('page \<Rightarrow> news_item list) \<Rightarrow> (nat \<Rightarrow> 'page page_obs) \<Rightarrow> int \<Rightarrow> int \<Rightarrow> interfax_state" where
  "interfax_run ex env max_clicks target_count =
     interfax_loop ex target_count env (nat max_clicks) 0
       \<lparr>rounds = 0, collected = [], seen = {}, no_new_count = 0\<rparr>"

definition interfax_scroll_and_click_load_more ::
  "('page \<Rightarrow> news_item list) \<Rightarrow> (nat \<Rightarrow> 'page page_obs) \<Rightarrow> int \<Rightarrow> int \<Rightarrow> news_item list" where
  "interfax_scroll_and_click_load_more ex env max_clicks target_count =
     collected (interfax_run ex env max_clicks target_count)"

subsection \<open>Vedomosti\<close>

text \<open>
  \<open>len(collected) > 50 and time_count < len(collected) * 0.3 and
  len(chunk) < len(collected) * 0.3\<close>.
\<close>

definition page_reset_detected :: "news_item list \<Rightarrow> nat \<Rightarrow> news_item list \<Rightarrow> bool" where
  "page_reset_detected c tc chunk =
     (50 < length c \<and> (of_nat tc :: rat) < of_nat (length c) * 0.3
      \<and> (of_nat (length chunk) :: rat) < of_nat (length c) * 0.3)"

text \<open>
  The second parse of the business module, after a click that added nothing: the part of
  the \<open>try\<close> block from \<open>time_elements2 = ...\<close> on.
\<close>

definition business_reparse ::
  "('page \<Rightarrow> news_item list) \<Rightarrow> 'page vedomosti_obs \<Rightarrow> nat \<Rightarrow> vedomosti_state
     \<Rightarrow> flow \<times> vedomosti_state" where
  "business_reparse extract_news_from_page ob tc st =
     (case (time_count2 ob, page_source2 ob) of
        (Some tc2, Some html_content2) \<Rightarrow>
          let chunk2 = extract_news_from_page html_content2 in
          (case merge_chunk chunk2 (collected st, seen st, 0) of
             (c, s, added2) \<Rightarrow>
               let st1 = st\<lparr>collected := c, seen := s\<rparr> in
               if 0 < added2 then (Continue, st1)
               else if tc < tc2 then (Continue, st1)
               else if tc2 < tc then
                 (if (of_nat (length chunk2) :: rat) < of_nat (length c) * 0.3
                  then (Break, st1) else (Continue, st1))
               else (Continue, st1))
      | _ \<Rightarrow> (Continue, st))"

text \<open>
  The \<open>try\<close> block of a round of the business module. \<open>Break\<close> is a \<open>break\<close> inside the
  block; an exception leaves the block with what was merged before it.
\<close>

definition business_parse ::
  "('page \<Rightarrow> news_item list) \<Rightarrow> 'page vedomosti_obs \<Rightarrow> vedomosti_state
     \<Rightarrow> flow \<times> vedomosti_state" where
  "business_parse extract_news_from_page ob st =
     (case (time_count ob, page_source ob) of
        (Some tc, Some html_content) \<Rightarrow>
          let chunk = extract_news_from_page html_content in
          (case merge_chunk chunk (collected st, seen st, 0) of
             (c, s, added) \<Rightarrow>
               let st1 = st\<lparr>collected := c, seen := s\<rparr> in
               if page_reset_detected c tc chunk then (Break, st1)
               else if load_more_clicked ob \<and> added = 0 then
                 (if (of_nat tc :: rat) < of_nat (length c) * 0.3 then
                    (case time_count_check ob of
                       None \<Rightarrow> (Continue, st1)
                     | Some tcc \<Rightarrow>
                         if (of_nat tcc :: rat) < of_nat (length c) * 0.5 then (Break, st1)
                         else business_reparse extract_news_from_page ob tc st1)
                  else business_reparse extract_news_from_page ob tc st1)
               else (Continue, st1))
      | _ \<Rightarrow> (Continue, st))"

text \<open>The \<open>try\<close> block of the economics module: no second parse.\<close>

definition economics_parse ::
  "('page \<Rightarrow> news_item list) \<Rightarrow> 'page vedomosti_obs \<Rightarrow> vedomosti_state
     \<Rightarrow> flow \<times> vedomosti_state" where
  "economics_parse extract_news_from_page ob st =
     (case (time_count ob, page_source ob) of
        (Some tc, Some html_content) \<Rightarrow>
          let chunk = extract_news_from_page html_content in
          (case merge_chunk chunk (collected st, seen st, 0) of
             (c, s, added) \<Rightarrow>
               let st1 = st\<lparr>collected := c, seen := s\<rparr> in
               if page_reset_detected c tc chunk then (Break, st1) else (Continue, st1))
      | _ \<Rightarrow> (Continue, st))"

text \<open>
  A round of either module, given its \<open>try\<close> block: the click counter, the block, the
  target test.
\<close>

definition vedomosti_round ::
  "('page vedomosti_obs \<Rightarrow> vedomosti_state \<Rightarrow> flow \<times> vedomosti_state) \<Rightarrow> int
     \<Rightarrow> 'page vedomosti_obs \<Rightarrow> vedomosti_state \<Rightarrow> flow \<times> vedomosti_state" where
  "vedomosti_round parse target_count ob st =
     (let st1 = (if load_more_clicked ob then st\<lparr>no_click_count := 0\<rparr>
                 else st\<lparr>no_click_count := no_click_count st + 1\<rparr>)
      in if \<not> load_more_clicked ob \<and> 3 \<le> no_click_count st1 then (Break, st1)
         else
           (case parse ob st1 of
              (Break, st2) \<Rightarrow> (Break, st2)
            | (Continue, st2) \<Rightarrow>
                if target_count \<noteq> 0 \<and> target_count \<le> int (length (collected st2))
                then (Break, st2) else (Continue, st2)))"

fun vedomosti_loop ::
  "('page vedomosti_obs \<Rightarrow> vedomosti_state \<Rightarrow> flow \<times> vedomosti_state) \<Rightarrow> int
     \<Rightarrow> (nat \<Rightarrow> 'page vedomosti_obs) \<Rightarrow> nat \<Rightarrow> nat \<Rightarrow> vedomosti_state \<Rightarrow> vedomosti_state" where
  "vedomosti_loop parse target_count env 0 round_num st = st"
| "vedomosti_loop parse target_count env (Suc n) round_num st =
     (case vedomosti_round parse target_count (env round_num) (st\<lparr>rounds := Suc round_num\<rparr>) of
        (Break, st') \<Rightarrow> st'
      | (Continue, st') \<Rightarrow> vedomosti_loop parse target_count env n (Suc round_num) st')"

definition vedomosti_init :: vedomosti_state where
  "vedomosti_init = \<lparr>rounds = 0, collected = [], seen = {}, no_click_count = 0\<rparr>"

definition business_run ::
  "('page \<Rightarrow> news_item list) \<Rightarrow> (nat \<Rightarrow> 'page vedomosti_obs) \<Rightarrow> int \<Rightarrow> int
     \<Rightarrow> vedomosti_state" where
  "business_run ex env max_clicks target_count =
     vedomosti_loop (business_parse ex) target_count env (nat max_clicks) 0 vedomosti_init"

definition economics_run ::
  "('page \<Rightarrow> news_item list) \<Rightarrow> (nat \<Rightarrow> 'page vedomosti_obs) \<Rightarrow> int \<Rightarrow> int
     \<Rightarrow> vedomosti_state" where
  "economics_run ex env max_clicks target_count =
     vedomosti_loop (economics_parse ex) target_count env (nat max_clicks) 0 vedomosti_init"

definition business_scroll_and_click_load_more ::
  "('page \<Rightarrow> news_item list) \<Rightarrow> (nat \<Rightarrow> 'page vedomosti_obs) \<Rightarrow> int \<Rightarrow> int
     \<Rightarrow> news_item list" where
  "business_scroll_and_click_load_more ex env max_clicks target_count =
     collected (business_run ex env max_clicks target_count)"

definition economics_scroll_and_click_load_more ::
  "('page \<Rightarrow> news_item list) \<Rightarrow> (nat \<Rightarrow> 'page vedomosti_obs) \<Rightarrow> int \<Rightarrow> int
     \<Rightarrow> news_item list" where
  "economics_scroll_and_click_load_more ex env max_clicks target_count =
     collected (economics_run ex env max_clicks target_count)"

subsection \<open>Finam\<close>

text \<open>\<open>target_count and count >= target_count\<close>, for \<open>target_count: int = None\<close>.\<close>

definition target_reached :: "int option \<Rightarrow> nat \<Rightarrow> bool" where
  "target_reached target_count n =
     (case target_count of None \<Rightarrow> False | Some t \<Rightarrow> t \<noteq> 0 \<and> t \<le> int n)"

text \<open>The \<open>try\<close> block of a round: the count of article links, and the delayed recount.\<close>

definition finam_count :: "int option \<Rightarrow> finam_obs \<Rightarrow> finam_state \<Rightarrow> flow \<times> finam_state" where
  "finam_count target_count ob st =
     (case current_count ob of
        None \<Rightarrow> (Continue, st)
      | Some cc \<Rightarrow>
          if last_news_count st < cc then
            (let st1 = st\<lparr>last_news_count := cc, same_height_count := 0\<rparr>
             in if target_reached target_count cc then (Break, st1) else (Continue, st1))
          else if load_more_clicked ob then
            (case current_count2 ob of
               None \<Rightarrow> (Continue, st)
             | Some cc2 \<Rightarrow>
                 if cc < cc2 then
                   (let st1 = st\<lparr>last_news_count := cc2, same_height_count := 0\<rparr>
                    in if target_reached target_count cc2 then (Break, st1)
                       else (Continue, st1))
                 else (Continue, st))
          else (Continue, st))"

definition finam_round :: "int option \<Rightarrow> finam_obs \<Rightarrow> finam_state \<Rightarrow> flow \<times> finam_state" where
  "finam_round target_count ob st =
     (case finam_count target_count ob st of
        (Break, st1) \<Rightarrow> (Break, st1)
      | (Continue, st1) \<Rightarrow>
          if new_height ob = last_height st1 then
            (let st2 = st1\<lparr>same_height_count := same_height_count st1 + 1\<rparr>
             in if 5 \<le> same_height_count st2 then (Break, st2) else (Continue, st2))
          else (Continue, st1\<lparr>same_height_count := 0, last_height := new_height ob\<rparr>))"

fun finam_loop ::
  "int option \<Rightarrow> (nat \<Rightarrow> finam_obs) \<Rightarrow> nat \<Rightarrow> nat \<Rightarrow> finam_state \<Rightarrow> finam_state" where
  "finam_loop target_count env 0 i st = st"
| "finam_loop target_count env (Suc n) i st =
     (case finam_round target_count (env i) (st\<lparr>rounds := Suc i\<rparr>) of
        (Break, st') \<Rightarrow> st'
      | (Continue, st') \<Rightarrow> finam_loop target_count env n (Suc i) st')"

definition finam_run :: "int \<Rightarrow> (nat \<Rightarrow> finam_obs) \<Rightarrow> int \<Rightarrow> int option \<Rightarrow> finam_state" where
  "finam_run initial_height env max_rounds target_count =
     finam_loop target_count env (nat max_rounds) 0
       \<lparr>rounds = 0, last_height = initial_height, last_news_count = 0, same_height_count = 0\<rparr>"

text \<open>
  \<open>scroll_and_load_all_news\<close> ends with \<open>print(f"... {i+1} ...")\<close>: when the loop body never
  ran, \<open>i\<close> is unbound and the function raises.
\<close>

datatype error = UnboundLocalError

definition finam_scroll_and_load_all_news ::
  "int \<Rightarrow> (nat \<Rightarrow> finam_obs) \<Rightarrow> int \<Rightarrow> int option \<Rightarrow> error + finam_state" where
  "finam_scroll_and_load_all_news initial_height env max_rounds target_count =
     (if max_rounds \<le> 0 then Inl UnboundLocalError
      else Inr (finam_run initial_height env max_rounds target_count))"

subsection \<open>Auxiliary predicates\<close>

text \<open>
  A round admits nothing new: its read of the page raises, or every item the extractor
  returns has a key in the set \<open>s\<close> of seen keys.
\<close>

definition no_new_item :: "('page \<Rightarrow> news_item list) \<Rightarrow> 'page page_obs \<Rightarrow> key set \<Rightarrow> bool" where
  "no_new_item ex ob s =
     (case page_source ob of None \<Rightarrow> True | Some p \<Rightarrow> key_of ` set (ex p) \<subseteq> s)"

text \<open>A \<open>try\<close> block that leaves the round counter and the click counter alone.\<close>

definition keeps_counters ::
  "('page vedomosti_obs \<Rightarrow> vedomosti_state \<Rightarrow> flow \<times> vedomosti_state) \<Rightarrow> bool" where
  "keeps_counters parse =
     (\<forall>ob st fl st'. parse ob st = (fl, st') \<longrightarrow>
        rounds st' = rounds st \<and> no_click_count st' = no_click_count st)"


section \<open>The parsed page\<close>

text \<open>
  The extractors work on the tree that \<open>BeautifulSoup(html_content, "html.parser")\<close>
  returns; the parser itself is a library and its tree is the input here. A node is a text
  or a tag with its name, the tokens of its \<open>class\<close> attribute (the library keeps them as a
  list; no \<open>class\<close> attribute is the empty list), its other attributes and its contents.
  The \<open>BeautifulSoup\<close> object is the tag at the root.

  A text carries the class the parser gave it: \<open>NavigableString\<close> itself (\<open>Plain\<close>) or one
  of its subclasses. The parser makes the texts below \<open>rt\<close>, \<open>rp\<close>, \<open>style\<close>, \<open>script\<close> and
  \<open>template\<close> objects of \<open>RubyTextString\<close>, \<open>RubyParenthesisString\<close>, \<open>Stylesheet\<close>,
  \<open>Script\<close> and \<open>TemplateString\<close>.

  An element is a node with its ancestors, nearest first, so that \<open>.parent\<close> and
  \<open>find_parent\<close> can be followed.
\<close>

datatype string_type =
  Plain | CData | Comment | Declaration | Doctype | ProcessingInstruction
| Stylesheet | Script | TemplateString | RubyTextString | RubyParenthesisString

datatype node =
  NavigableString string_type pystr
| Tag pystr "pystr list" "(pystr \<times> pystr) list" "node list"

type_synonym element = "node \<times> node list"

fun tag_name :: "node \<Rightarrow> pystr option" where
  "tag_name (NavigableString t s) = None"
| "tag_name (Tag n c a ch) = Some n"

fun tag_class :: "node \<Rightarrow> pystr list" where
  "tag_class (NavigableString t s) = []"
| "tag_class (Tag n c a ch) = c"

text \<open>\<open>tag.get(name)\<close>.\<close>

fun get_attr :: "node \<Rightarrow> pystr \<Rightarrow> pystr option" where
  "get_attr (NavigableString t s) name = None"
| "get_attr (Tag n c a ch) name = map_of a name"

text \<open>All tags below a node, in document order, each with its ancestors.\<close>

fun descendants :: "node \<Rightarrow> node list \<Rightarrow> element list"
  and descendants_of :: "node list \<Rightarrow> node list \<Rightarrow> element list" where
  "descendants (NavigableString t s) anc = []"
| "descendants (Tag n c a ch) anc = descendants_of ch (Tag n c a ch # anc)"
| "descendants_of [] anc = []"
| "descendants_of (x # xs) anc =
     (case x of NavigableString t s \<Rightarrow> [] | Tag n c a ch \<Rightarrow> (x, anc) # descendants x anc)
     @ descendants_of xs anc"

text \<open>\<open>el.find_all(...)\<close> and \<open>el.find(...)\<close> for a test on the tag itself.\<close>

definition find_all :: "element \<Rightarrow> (node \<Rightarrow> bool) \<Rightarrow> element list" where
  "find_all el P = filter (\<lambda>d. P (fst d)) (descendants (fst el) (snd el))"

definition find_tag :: "element \<Rightarrow> (node \<Rightarrow> bool) \<Rightarrow> element option" where
  "find_tag el P = (case find_all el P of [] \<Rightarrow> None | d # ds \<Rightarrow> Some d)"

text \<open>\<open>el.parent\<close>: \<open>None\<close> at the root.\<close>

fun parent :: "element \<Rightarrow> element option" where
  "parent (x, []) = None"
| "parent (x, p # anc) = Some (p, anc)"

text \<open>\<open>el.find_parent(...)\<close>: the nearest proper ancestor that passes the test.\<close>

fun closest :: "node list \<Rightarrow> (node \<Rightarrow> bool) \<Rightarrow> element option" where
  "closest [] P = None"
| "closest (p # anc) P = (if P p then Some (p, anc) else closest anc P)"

definition find_parent :: "element \<Rightarrow> (node \<Rightarrow> bool) \<Rightarrow> element option" where
  "find_parent el P = closest (snd el) P"

text \<open>
  \<open>interesting_string_types\<close> of a tag: the string container of its name in the HTML tree
  builder (\<open>DEFAULT_STRING_CONTAINERS\<close>), else \<open>(NavigableString, CData)\<close>. A text has the
  latter.
\<close>

definition interesting_string_types :: "pystr \<Rightarrow> string_type list" where
  "interesting_string_types name =
     (if name = str ''rt'' then [RubyTextString]
      else if name = str ''rp'' then [RubyParenthesisString]
      else if name = str ''style'' then [Stylesheet]
      else if name = str ''script'' then [Script]
      else if name = str ''template'' then [TemplateString]
      else [Plain, CData])"

fun string_types :: "node \<Rightarrow> string_type list" where
  "string_types (NavigableString t s) = [Plain, CData]"
| "string_types (Tag n c a ch) = interesting_string_types n"

text \<open>
  \<open>tag.get_text(sep, strip=True)\<close>: the texts below the tag in document order whose class
  is one of the interesting string types of the tag, each stripped, the empty ones
  dropped, joined by \<open>sep\<close>.
\<close>

fun strings :: "string_type list \<Rightarrow> node \<Rightarrow> pystr list"
  and strings_of :: "string_type list \<Rightarrow> node list \<Rightarrow> pystr list" where
  "strings types (NavigableString t s) = (if t \<in> set types then [s] else [])"
| "strings types (Tag n c a ch) = strings_of types ch"
| "strings_of types [] = []"
| "strings_of types (x # xs) = strings types x @ strings_of types xs"

definition get_text :: "pystr \<Rightarrow> node \<Rightarrow> pystr" where
  "get_text sep x =
     join sep (filter (\<lambda>s. s \<noteq> []) (map strip (strings (string_types x) x)))"

text \<open>The tests the extractors pass to \<open>find\<close> and \<open>find_all\<close>.\<close>

definition is_tag :: "pystr \<Rightarrow> node \<Rightarrow> bool" where
  "is_tag name x = (tag_name x = Some name)"

definition has_attr :: "pystr \<Rightarrow> node \<Rightarrow> bool" where
  "has_attr name x = (get_attr x name \<noteq> None)"

text \<open>
  \<open>class_=...\<close> with a string or a compiled pattern \<open>R\<close>: some token of the class
  passes, or the tokens joined by a space pass.
\<close>

definition class_matches :: "(pystr \<Rightarrow> bool) \<Rightarrow> node \<Rightarrow> bool" where
  "class_matches R x = (list_ex R (tag_class x) \<or> R (join (str '' '') (tag_class x)))"

text \<open>\<open>href=...\<close> with a compiled pattern: the attribute is there and passes.\<close>

definition attr_matches :: "pystr \<Rightarrow> (pystr \<Rightarrow> bool) \<Rightarrow> node \<Rightarrow> bool" where
  "attr_matches name R x = (case get_attr x name of None \<Rightarrow> False | Some v \<Rightarrow> R v)"

section \<open>The extractors\<close>

text \<open>
  Library functions whose tables are not part of the repository are parameters of the
  extractors that call them: \<open>html.unescape\<close> (\<open>unescape\<close>),
  \<open>urllib.parse.urljoin\<close> (\<open>urljoin\<close>) and, for the word boundaries of one pattern,
  \<open>str.isalnum\<close> of a code point (\<open>isalnum\<close>).
\<close>

subsection \<open>AKM\<close>

text \<open>
  \<open>re.compile(r"\bb-section-item\b").search\<close>: an occurrence of the literal with no word
  character (\<open>\w\<close>: alphanumeric or underscore) right before or right after it. The flag
  says whether the code point before the current position is a word character.
\<close>

fun search_bounded :: "(nat \<Rightarrow> bool) \<Rightarrow> pystr \<Rightarrow> bool \<Rightarrow> pystr \<Rightarrow> bool" where
  "search_bounded isalnum lit prev_word [] = False"
| "search_bounded isalnum lit prev_word (c # cs) =
     ((\<not> prev_word \<and> startswith (c # cs) lit
       \<and> (case drop (length lit) (c # cs) of [] \<Rightarrow> True | d # ds \<Rightarrow> \<not> (isalnum d \<or> d = 95)))
      \<or> search_bounded isalnum lit (isalnum c \<or> c = 95) cs)"

definition section_item_class :: "(nat \<Rightarrow> bool) \<Rightarrow> pystr \<Rightarrow> bool" where
  "section_item_class isalnum s = search_bounded isalnum (str ''b-section-item'') False s"

text \<open>
  The date of a news block: the text of the last \<open>span\<close> of its
  \<open>div.b-section-item__meta\<close>, or the empty string.
\<close>

definition akm_date_text :: "element \<Rightarrow> pystr" where
  "akm_date_text item =
     (case find_tag item (\<lambda>x. is_tag (str ''div'') x
                \<and> class_matches (\<lambda>c. c = str ''b-section-item__meta'') x) of
        None \<Rightarrow> []
      | Some meta \<Rightarrow>
          let spans = find_all meta (is_tag (str ''span'')) in
          if spans = [] then [] else get_text [] (fst (last spans)))"

text \<open>The body of the loop of \<open>get_akm_news\<close>: the item appended, or \<open>None\<close>.\<close>

definition akm_item :: "element \<Rightarrow> news_item option" where
  "akm_item item =
     (case find_tag item (\<lambda>x. is_tag (str ''h3'') x
                              \<and> class_matches (\<lambda>c. c = str ''b-section-item__title'') x) of
        None \<Rightarrow> None
      | Some title_tag \<Rightarrow>
          (case find_tag title_tag (is_tag (str ''a'')) of
             None \<Rightarrow> None
           | Some link \<Rightarrow>
               let title = get_text [] (fst link) in
               if title = [] then None
               else
                 let date_text = akm_date_text item
                 in if title \<noteq> [] \<and> date_text \<noteq> []
                    then Some \<lparr>date = date_text, title = title\<rparr> else None))"

definition get_akm_news :: "(nat \<Rightarrow> bool) \<Rightarrow> node \<Rightarrow> news_item list" where
  "get_akm_news isalnum soup =
     List.map_filter akm_item
       (find_all (soup, []) (\<lambda>x. is_tag (str ''div'') x
                                  \<and> class_matches (section_item_class isalnum) x))"

subsection \<open>Interfax\<close>

text \<open>
  \<open>NEWS_HREF_PATTERN.search\<close>, for
  \<open>^(?:https?://[^/]+)?/(business|world|russia|moscow|digital|news|culture)/\d+\<close> with
  \<open>re.I\<close>.
\<close>

definition section_path :: "pystr \<Rightarrow> bool" where
  "section_path s =
     list_ex (\<lambda>sec. istartswith s (str ''/'' @ sec @ str ''/'')
                \<and> (case drop (length sec + 2) s of [] \<Rightarrow> False | d # ds \<Rightarrow> isdecimal d))
       [str ''business'', str ''world'', str ''russia'', str ''moscow'', str ''digital'',
        str ''news'', str ''culture'']"

definition after_host :: "pystr \<Rightarrow> bool" where
  "after_host s = (takeWhile (\<lambda>c. c \<noteq> 47) s \<noteq> [] \<and> section_path (dropWhile (\<lambda>c. c \<noteq> 47) s))"

definition NEWS_HREF_PATTERN_search :: "pystr \<Rightarrow> bool" where
  "NEWS_HREF_PATTERN_search s =
     ((istartswith s (str ''http://'') \<and> after_host (drop 7 s))
      \<or> (istartswith s (str ''https://'') \<and> after_host (drop 8 s))
      \<or> section_path s)"

text \<open>
  The body of the inner loop of the Interfax \<open>extract_news_from_page\<close>, for one
  \<open>time\<close> element.
\<close>

definition interfax_item :: "(pystr \<Rightarrow> pystr) \<Rightarrow> element \<Rightarrow> news_item option" where
  "interfax_item unescape time_el =
     (case parent time_el of
        None \<Rightarrow> None
      | Some par \<Rightarrow>
          (case find_tag par (\<lambda>x. is_tag (str ''a'') x
                                  \<and> attr_matches (str ''href'') NEWS_HREF_PATTERN_search x) of
             None \<Rightarrow> None
           | Some a \<Rightarrow>
               let datetime_val =
                 strip (case get_attr (fst time_el) (str ''datetime'') of
                          None \<Rightarrow> [] | Some v \<Rightarrow> v)
               in if datetime_val = [] then None
                  else
                    let date_str = interfax_date_str datetime_val;
                        title0 =
                          (case get_attr (fst a) (str ''title'') of
                             Some t \<Rightarrow> if t \<noteq> [] then t else
                               (case find_tag a (is_tag (str ''h3'')) of
                                  None \<Rightarrow> [] | Some h3 \<Rightarrow> get_text (str '' '') (fst h3))
                           | None \<Rightarrow>
                               (case find_tag a (is_tag (str ''h3'')) of
                                  None \<Rightarrow> [] | Some h3 \<Rightarrow> get_text (str '' '') (fst h3)));
                        title = strip (unescape title0)
                    in if title = [] then None
                       else Some \<lparr>date = date_str, title = title\<rparr>))"

definition interfax_extract_news_from_page :: "(pystr \<Rightarrow> pystr) \<Rightarrow> node \<Rightarrow> news_item list" where
  "interfax_extract_news_from_page unescape soup =
     (let timelines = find_all (soup, []) (\<lambda>x. is_tag (str ''div'') x
                 \<and> class_matches (\<lambda>c. c = str ''timeline'' \<or> c = str ''timeline\<newline>'') x)
      in if timelines = [] then []
         else concat (map (\<lambda>timeline.
                List.map_filter (interfax_item unescape)
                  (find_all timeline (\<lambda>x. is_tag (str ''time'') x \<and> has_attr (str ''datetime'') x)))
              timelines))"

subsection \<open>Finam\<close>

definition BASE_URL :: pystr where
  "BASE_URL = str ''https://www.finam.ru/''"

text \<open>
  \<open>article_href_pattern.search\<close>, for
  \<open>/publications/item/|bonds\.finam\.ru/(news|comments)/item/\<close> with \<open>re.IGNORECASE\<close>.
\<close>

definition article_href_pattern_search :: "pystr \<Rightarrow> bool" where
  "article_href_pattern_search href =
     (icontains href (str ''/publications/item/'')
      \<or> icontains href (str ''bonds.finam.ru/news/item/'')
      \<or> icontains href (str ''bonds.finam.ru/comments/item/''))"

text \<open>\<open>s.split("/")[-2] if "/" in s else s\<close>.\<close>

definition url_segment :: "pystr \<Rightarrow> pystr" where
  "url_segment s =
     (if 47 \<in> set s then (let parts = split_on 47 s in parts ! (length parts - 2)) else s)"

text \<open>\<open>not text or len(text) < 5\<close>.\<close>

definition too_short :: "pystr \<Rightarrow> bool" where
  "too_short text = (text = [] \<or> length text < 5)"

text \<open>The text of one anchor, after the three fallbacks.\<close>

definition anchor_text :: "element \<Rightarrow> pystr \<Rightarrow> pystr" where
  "anchor_text a_tag href =
     (let text0 = get_text (str '' '') (fst a_tag);
          text1 =
            (if too_short text0 then
               (case parent a_tag of
                  None \<Rightarrow> text0
                | Some par \<Rightarrow>
                    let parent_text = get_text (str '' '') (fst par) in
                    if length text0 < length parent_text \<and> 10 < length parent_text
                    then parent_text else text0)
             else text0);
          text2 =
            (if too_short text1 then
               (let title_attr = (case get_attr (fst a_tag) (str ''title'') of
                                    None \<Rightarrow> [] | Some t \<Rightarrow> t)
                in if title_attr \<noteq> [] \<and> 5 < length title_attr then title_attr else text1)
             else text1)
      in if too_short text2 then url_segment href else text2)"

text \<open>
  The navigation filter: \<open>len(text) < 20\<close> and one of the two Cyrillic phrases in
  \<open>text.lower()\<close>, or a right arrow (U+2192) or \<open>>\<close> in \<open>text\<close>.
\<close>

definition navigation_text :: "pystr \<Rightarrow> bool" where
  "navigation_text text =
     (length text < 20
      \<and> (contains (lower text) [1095, 1080, 1090, 1072, 1090, 1100, 32, 1076, 1072, 1083, 1077, 1077]
         \<or> contains (lower text) [1087, 1086, 1076, 1088, 1086, 1073, 1085, 1077, 1077]
         \<or> contains text [8594] \<or> contains text (str ''>'')))"

record article_info = news_item +
  url :: pystr

text \<open>
  \<open>articles\<close> is a \<open>dict\<close> from the URL to its record; it keeps the order of insertion, so
  it is a list of pairs with distinct keys. The title update of one anchor text:
\<close>

definition choose_title :: "pystr \<Rightarrow> article_info \<Rightarrow> article_info" where
  "choose_title text info =
     (if length (title info) < length text then
        (if (of_nat (length (title info)) :: rat) * 1.2 < of_nat (length text)
            \<or> length (title info) < 10
         then info\<lparr>title := text\<rparr> else info)
      else info)"

definition record_anchor ::
  "pystr \<Rightarrow> pystr \<Rightarrow> (pystr \<times> article_info) list \<Rightarrow> (pystr \<times> article_info) list" where
  "record_anchor full_url text articles =
     (case map_of articles full_url of
        None \<Rightarrow>
          articles @ [(full_url, choose_title text
             \<lparr>date = parse_datetime_from_url full_url, title = [], url = full_url\<rparr>)]
      | Some info \<Rightarrow>
          map (\<lambda>(k, v). if k = full_url then (k, choose_title text v) else (k, v)) articles)"

text \<open>
  What one anchor contributes: \<open>None\<close> where the loop body ends in \<open>continue\<close>, else the
  URL and the text.
\<close>

definition accepted_anchor ::
  "(pystr \<Rightarrow> pystr \<Rightarrow> pystr) \<Rightarrow> element \<Rightarrow> (pystr \<times> pystr) option" where
  "accepted_anchor urljoin a_tag =
     (case get_attr (fst a_tag) (str ''href'') of
        None \<Rightarrow> None
      | Some href \<Rightarrow>
          if \<not> article_href_pattern_search href then None
          else
            let full_url = urljoin BASE_URL href;
                text = anchor_text a_tag href
            in if navigation_text text then None else Some (full_url, text))"

fun collect_articles ::
  "(pystr \<Rightarrow> pystr \<Rightarrow> pystr) \<Rightarrow> element list \<Rightarrow> (pystr \<times> article_info) list
     \<Rightarrow> (pystr \<times> article_info) list" where
  "collect_articles urljoin [] articles = articles"
| "collect_articles urljoin (a_tag # a_tags) articles =
     (case accepted_anchor urljoin a_tag of
        None \<Rightarrow> collect_articles urljoin a_tags articles
      | Some (full_url, text) \<Rightarrow>
          collect_articles urljoin a_tags (record_anchor full_url text articles))"

definition finam_articles ::
  "(pystr \<Rightarrow> pystr \<Rightarrow> pystr) \<Rightarrow> node \<Rightarrow> (pystr \<times> article_info) list" where
  "finam_articles urljoin soup =
     collect_articles urljoin
       (find_all (soup, []) (\<lambda>x. is_tag (str ''a'') x \<and> has_attr (str ''href'') x)) []"

definition article_item :: "article_info \<Rightarrow> news_item" where
  "article_item info =
     (if title info \<noteq> [] then \<lparr>date = date info, title = title info\<rparr>
      else \<lparr>date = date info, title = url_segment (url info)\<rparr>)"


subsection \<open>Vedomosti\<close>

text \<open>
  \<open>(time_el.get("datetime") or time_el.get_text(strip=True) or "").strip()\<close>, and the
  \<open>date_iso\<close> it gives, if any.
\<close>

definition time_date_text :: "element \<Rightarrow> pystr" where
  "time_date_text time_el =
     strip (case get_attr (fst time_el) (str ''datetime'') of
              Some v \<Rightarrow> if v \<noteq> [] then v else get_text [] (fst time_el)
            | None \<Rightarrow> get_text [] (fst time_el))"

definition time_date_iso :: "element \<Rightarrow> pystr option" where
  "time_date_iso time_el =
     (let date_text = time_date_text time_el
      in if date_text = [] then None else vedomosti_date_iso date_text)"

text \<open>\<open>a.get_text(" ", strip=True) or (a.get("title") or "")\<close>, unescaped and stripped.\<close>

definition link_title :: "(pystr \<Rightarrow> pystr) \<Rightarrow> element \<Rightarrow> pystr" where
  "link_title unescape a =
     strip (unescape
       (let t = get_text (str '' '') (fst a)
        in if t \<noteq> [] then t
           else (case get_attr (fst a) (str ''title'') of None \<Rightarrow> [] | Some v \<Rightarrow> v)))"

text \<open>\<open>any(x in href for x in ["#", "javascript:", "mailto:", "tel:"])\<close>.\<close>

definition special_href :: "pystr \<Rightarrow> bool" where
  "special_href href =
     (contains href (str ''#'') \<or> contains href (str ''javascript:'')
      \<or> contains href (str ''mailto:'') \<or> contains href (str ''tel:''))"

text \<open>The two modules differ in the link tests.\<close>

definition business_is_news_link :: "pystr \<Rightarrow> bool" where
  "business_is_news_link href =
     (contains href (str ''/business/'') \<or> contains href (str ''/finance/'')
      \<or> contains href (str ''/news/'') \<or> contains href (str ''/articles/'')
      \<or> (startswith href (str ''/'') \<and> 10 < length href \<and> \<not> special_href href))"

definition economics_is_news_link :: "pystr \<Rightarrow> bool" where
  "economics_is_news_link href =
     (contains href (str ''/economics/'')
      \<or> contains href (str ''/news/'') \<or> contains href (str ''/articles/'')
      \<or> (startswith href (str ''/'') \<and> 10 < length href \<and> \<not> special_href href))"

definition business_links :: "pystr \<Rightarrow> bool" where
  "business_links href = (contains href (str ''/business/'') \<or> contains href (str ''/finance/''))"

definition econ_links :: "pystr \<Rightarrow> bool" where
  "econ_links href = contains href (str ''/economics/'')"

definition a_href :: "node \<Rightarrow> bool" where
  "a_href x = (is_tag (str ''a'') x \<and> has_attr (str ''href'') x)"

text \<open>The link of a \<open>time\<close> element, by the three methods of the first strategy.\<close>

definition title_link :: "element \<Rightarrow> element option" where
  "title_link par =
     (let card =
            (case find_parent par (class_matches (\<lambda>c. contains c (str ''card-news-item'')
                      \<or> contains c (str ''card-mobile-news'')
                      \<or> contains c (str ''article-preview-item''))) of
               Some c \<Rightarrow> c
             | None \<Rightarrow>
                 (case find_parent par (class_matches (\<lambda>c. contains c (str ''card''))) of
                    Some c \<Rightarrow> c | None \<Rightarrow> par));
          a1 =
            (case find_tag card (\<lambda>x. is_tag (str ''div'') x
                      \<and> class_matches (\<lambda>c. contains c (str ''card-news-item__title'')
                           \<or> contains c (str ''article-preview-item__title'')) x) of
               None \<Rightarrow> None
             | Some title_div \<Rightarrow> find_tag title_div a_href);
          a2 = (case a1 of Some a \<Rightarrow> Some a | None \<Rightarrow> find_tag card a_href)
      in case a2 of
           Some a \<Rightarrow> Some a
         | None \<Rightarrow>
             (case find_tag par a_href of
                Some a \<Rightarrow> Some a
              | None \<Rightarrow>
                  (case parent par of
                     None \<Rightarrow> None
                   | Some par2 \<Rightarrow>
                       (case find_tag par2 a_href of
                          Some a \<Rightarrow> Some a
                        | None \<Rightarrow>
                            (case parent par2 of
                               None \<Rightarrow> None
                             | Some par3 \<Rightarrow> find_tag par3 a_href)))))"

text \<open>
  The first strategy for one \<open>time\<close> element: the item it would add, or \<open>None\<close> where the
  body ends in \<open>continue\<close>.
\<close>

definition time_candidate ::
  "(pystr \<Rightarrow> bool) \<Rightarrow> (pystr \<Rightarrow> pystr) \<Rightarrow> element \<Rightarrow> news_item option" where
  "time_candidate is_news_link unescape time_el =
     (case time_date_iso time_el of
        None \<Rightarrow> None
      | Some date_iso \<Rightarrow>
          (case parent time_el of
             None \<Rightarrow> None
           | Some par \<Rightarrow>
               (case title_link par of
                  None \<Rightarrow> None
                | Some a \<Rightarrow>
                    let href = (case get_attr (fst a) (str ''href'') of None \<Rightarrow> [] | Some v \<Rightarrow> v)
                    in if href = [] then None
                       else if \<not> is_news_link href then None
                       else
                         let title = link_title unescape a
                         in if title = [] \<or> length title < 2 then None
                            else Some \<lparr>date = date_iso, title = title\<rparr>)))"

text \<open>
  The second strategy: the walk from the parent of a link upwards, at most
  \<open>max_levels = 10\<close> levels, to the first level whose first \<open>time\<close> element gives a date.
\<close>

fun nearest_date :: "nat \<Rightarrow> element option \<Rightarrow> pystr option" where
  "nearest_date 0 current = None"
| "nearest_date (Suc levels) None = None"
| "nearest_date (Suc levels) (Some current) =
     (case find_tag current (is_tag (str ''time'')) of
        None \<Rightarrow> nearest_date levels (parent current)
      | Some time_el \<Rightarrow>
          (case time_date_iso time_el of
             Some date_iso \<Rightarrow> Some date_iso
           | None \<Rightarrow> nearest_date levels (parent current)))"

definition link_candidate :: "(pystr \<Rightarrow> pystr) \<Rightarrow> element \<Rightarrow> news_item option" where
  "link_candidate unescape a =
     (let href = (case get_attr (fst a) (str ''href'') of None \<Rightarrow> [] | Some v \<Rightarrow> v)
      in if href = [] \<or> special_href href then None
         else
           let title = link_title unescape a
           in if title = [] \<or> length title < 2 then None
              else (case nearest_date 10 (parent a) of
                      None \<Rightarrow> None
                    | Some date_iso \<Rightarrow> Some \<lparr>date = date_iso, title = title\<rparr>))"

text \<open>
  Either loop of the extractor: an element's candidate is appended unless its key is in
  \<open>seen_keys\<close>.
\<close>

fun strategy_loop ::
  "(element \<Rightarrow> news_item option) \<Rightarrow> element list \<Rightarrow> news_item list \<times> key set
     \<Rightarrow> news_item list \<times> key set" where
  "strategy_loop cand [] (result, seen_keys) = (result, seen_keys)"
| "strategy_loop cand (el # els) (result, seen_keys) =
     (case cand el of
        None \<Rightarrow> strategy_loop cand els (result, seen_keys)
      | Some item \<Rightarrow>
          if key_of item \<notin> seen_keys
          then strategy_loop cand els (result @ [item], insert (key_of item) seen_keys)
          else strategy_loop cand els (result, seen_keys))"

definition vedomosti_extract_news_from_page ::
  "(pystr \<Rightarrow> bool) \<Rightarrow> (pystr \<Rightarrow> bool) \<Rightarrow> (pystr \<Rightarrow> pystr) \<Rightarrow> node \<Rightarrow> news_item list" where
  "vedomosti_extract_news_from_page is_news_link section_links unescape soup =
     (let all_times = find_all (soup, []) (is_tag (str ''time''));
          after1 = strategy_loop (time_candidate is_news_link unescape) all_times ([], {});
          links = find_all (soup, []) (\<lambda>x. is_tag (str ''a'') x
                                      \<and> attr_matches (str ''href'') section_links x)
      in fst (strategy_loop (link_candidate unescape) links after1))"

definition business_extract_news_from_page :: "(pystr \<Rightarrow> pystr) \<Rightarrow> node \<Rightarrow> news_item list" where
  "business_extract_news_from_page =
     vedomosti_extract_news_from_page business_is_news_link business_links"

definition economics_extract_news_from_page :: "(pystr \<Rightarrow> pystr) \<Rightarrow> node \<Rightarrow> news_item list" where
  "economics_extract_news_from_page =
     vedomosti_extract_news_from_page economics_is_news_link econ_links"

subsection \<open>Auxiliary predicate\<close>

text \<open>Every record of \<open>articles\<close> carries its key as URL and the date parsed from it.\<close>

definition articles_wf :: "(pystr \<times> article_info) list \<Rightarrow> bool" where
  "articles_wf arts =
     (\<forall>kv\<in>set arts. url (snd kv) = fst kv \<and> date (snd kv) = parse_datetime_from_url (fst kv))"


section \<open>Example inputs\<close>

text \<open>
  Pages and parameters for the concrete evaluations below. \<open>el\<close> and \<open>tx\<close> build a tag and
  a text from ASCII literals. The stand-ins for the library functions agree with them on
  the inputs used: \<open>html.unescape\<close> is the identity on a string without \<open>&\<close>, \<open>urljoin\<close>
  returns an absolute \<open>https\<close> URL as it is, and \<open>str.isalnum\<close> on an ASCII code point is
  the test for a letter or digit.
\<close>

definition el :: "string \<Rightarrow> string list \<Rightarrow> (string \<times> string) list \<Rightarrow> node list \<Rightarrow> node" where
  "el name classes attrs children =
     Tag (str name) (map str classes) (map (\<lambda>(k, v). (str k, str v)) attrs) children"

definition tx :: "string \<Rightarrow> node" where
  "tx s = NavigableString Plain (str s)"

definition document :: "node list \<Rightarrow> node" where
  "document children = el ''[document]'' [] [] children"

definition unescape_plain :: "pystr \<Rightarrow> pystr" where
  "unescape_plain s = s"

definition urljoin_absolute :: "pystr \<Rightarrow> pystr \<Rightarrow> pystr" where
  "urljoin_absolute base href = href"

definition isalnum_ascii :: "nat \<Rightarrow> bool" where
  "isalnum_ascii c = ((48 \<le> c \<and> c \<le> 57) \<or> (65 \<le> c \<and> c \<le> 90) \<or> (97 \<le> c \<and> c \<le> 122))"

text \<open>An AKM news block, a block without a date, and a page that shows one block twice.\<close>

definition akm_block :: node where
  "akm_block =
     el ''div'' [''b-section-item''] []
       [el ''h3'' [''b-section-item__title''] []
          [el ''a'' [] [(''href'', ''/news/rynok/'')] [tx ''Rynok vyros'']],
        el ''div'' [''b-section-item__meta''] []
          [el ''span'' [] [] [tx ''AKM''], el ''span'' [] [] [tx ''05 fevralya 2026 12:18'']]]"

definition akm_undated_block :: node where
  "akm_undated_block =
     el ''div'' [''b-section-item''] []
       [el ''h3'' [''b-section-item__title''] []
          [el ''a'' [] [(''href'', ''/news/bez-daty/'')] [tx ''Bez daty'']]]"

definition akm_page_twice :: node where
  "akm_page_twice = document [akm_block, akm_block]"

definition akm_page_undated :: node where
  "akm_page_undated = document [akm_undated_block, akm_block]"

text \<open>An Interfax page with one timeline that shows the same entry twice.\<close>

definition interfax_entry :: node where
  "interfax_entry =
     el ''div'' [] []
       [el ''time'' [] [(''datetime'', ''2026-02-05T12:18:00'')] [tx ''12:18''],
        el ''a'' [] [(''href'', ''/business/1001'')] [el ''h3'' [] [] [tx '' Rubl ukrepilsya '']]]"

definition interfax_page :: node where
  "interfax_page = document [el ''div'' [''timeline''] [] [interfax_entry, interfax_entry]]"

text \<open>
  A Vedomosti page of two cards, and a page on which the first strategy finds only the
  second article (three \<open>span\<close>s separate the first \<open>time\<close> element from every link), while
  the second strategy finds the first.
\<close>

definition vedomosti_card :: "string \<Rightarrow> string \<Rightarrow> string \<Rightarrow> node" where
  "vedomosti_card d href headline =
     el ''div'' [''card-news-item''] []
       [el ''time'' [''card-news-item__date''] [] [tx d],
        el ''div'' [''card-news-item__title''] [] [el ''a'' [] [(''href'', href)] [tx headline]]]"

definition vedomosti_page :: node where
  "vedomosti_page =
     document
       [vedomosti_card ''05.02.2026'' ''/business/economics/news/2026/02/05/a'' ''Pervaya novost'',
        vedomosti_card ''04.02.2026'' ''/business/economics/news/2026/02/04/b'' ''Vtoraya novost'']"



text \<open>
  Interfax pages of \<open>n\<close> entries with pairwise different titles, and the empty page.
\<close>

definition numbered :: "nat \<Rightarrow> node" where
  "numbered i = NavigableString Plain (str ''Novost '' @ replicate (Suc i) 120)"

definition interfax_page_of :: "nat \<Rightarrow> node" where
  "interfax_page_of n =
     document [el ''div'' [''timeline''] []
       (map (\<lambda>i. el ''div'' [] []
               [el ''time'' [] [(''datetime'', ''2026-02-05T12:18:00'')] [],
                el ''a'' [] [(''href'', ''/business/1001'')] [el ''h3'' [] [] [numbered i]]])
            [0..<n])]"

definition empty_page :: node where
  "empty_page = document []"

text \<open>
  For the runs that need more than fifty items, a page is abstracted to the number of
  entries it shows: the page of \<open>n\<close> entries parses to the first \<open>n\<close> of a sequence of items
  with pairwise different titles, and has \<open>n\<close> \<open>time\<close> elements.
\<close>

definition item_no :: "nat \<Rightarrow> news_item" where
  "item_no i = \<lparr>date = str ''2026-02-05'', title = replicate (Suc i) 120\<rparr>"

definition numbered_items :: "nat \<Rightarrow> news_item list" where
  "numbered_items n = map item_no [0..<n]"

text \<open>
  Environments. Interfax, trigger never found, round \<open>r\<close> shows \<open>r + 1\<close> entries (one new
  entry per round):
\<close>

definition growing_env :: "nat \<Rightarrow> node page_obs" where
  "growing_env r = \<lparr>load_more_clicked = False, page_source = Some (interfax_page_of (Suc r))\<rparr>"

text \<open>
  Interfax, trigger always found, the first round shows sixty entries and every later
  round an empty page:
\<close>

definition emptied_env :: "nat \<Rightarrow> nat page_obs" where
  "emptied_env r = \<lparr>load_more_clicked = True, page_source = Some (if r = 0 then 60 else 0)\<rparr>"

text \<open>Interfax, trigger always found, every round shows the same two entries:\<close>

definition repeating_env :: "nat \<Rightarrow> node page_obs" where
  "repeating_env r = \<lparr>load_more_clicked = True, page_source = Some (interfax_page_of 2)\<rparr>"

text \<open>
  Vedomosti, trigger always found, the first round shows sixty entries, every later round
  only the first five of them:
\<close>

definition reset_env :: "nat \<Rightarrow> nat vedomosti_obs" where
  "reset_env r =
     \<lparr>load_more_clicked = True, page_source = Some (if r = 0 then 60 else 5),
      time_count = Some (if r = 0 then 60 else 5), time_count_check = Some 5,
      time_count2 = Some 5, page_source2 = Some 5\<rparr>"

definition after_sixty :: vedomosti_state where
  "after_sixty =
     \<lparr>rounds = 1, collected = numbered_items 60, seen = key_of ` set (numbered_items 60),
      no_click_count = 0\<rparr>"

text \<open>
  Vedomosti, the three rounds of the specification's example: items A and B, then B and C
  after a click each, then nothing, and from the third round on no trigger.
\<close>

definition page_ab :: node where
  "page_ab =
     document
       [vedomosti_card ''05.02.2026'' ''/business/economics/news/2026/02/05/a'' ''Novost A'',
        vedomosti_card ''05.02.2026'' ''/business/economics/news/2026/02/05/b'' ''Novost B'']"

definition page_bc :: node where
  "page_bc =
     document
       [vedomosti_card ''05.02.2026'' ''/business/economics/news/2026/02/05/b'' ''Novost B'',
        vedomosti_card ''04.02.2026'' ''/business/economics/news/2026/02/04/c'' ''Novost C'']"

definition example_env :: "nat \<Rightarrow> node vedomosti_obs" where
  "example_env r =
     (if r = 0 then
        \<lparr>load_more_clicked = True, page_source = Some page_ab, time_count = Some 2,
         time_count_check = Some 2, time_count2 = Some 2, page_source2 = Some page_ab\<rparr>
      else if r = 1 then
        \<lparr>load_more_clicked = True, page_source = Some page_bc, time_count = Some 2,
         time_count_check = Some 2, time_count2 = Some 2, page_source2 = Some page_bc\<rparr>
      else
        \<lparr>load_more_clicked = False, page_source = Some empty_page, time_count = Some 0,
         time_count_check = Some 0, time_count2 = Some 0, page_source2 = Some empty_page\<rparr>)"

definition after_two_rounds :: vedomosti_state where
  "after_two_rounds =
     \<lparr>rounds = 2,
      collected = [\<lparr>date = str ''2026-02-05'', title = str ''Novost A''\<rparr>,
                   \<lparr>date = str ''2026-02-05'', title = str ''Novost B''\<rparr>,
                   \<lparr>date = str ''2026-02-04'', title = str ''Novost C''\<rparr>],
      seen = {(str ''2026-02-05'', str ''Novost A''), (str ''2026-02-05'', str ''Novost B''),
              (str ''2026-02-04'', str ''Novost C'')},
      no_click_count = 0\<rparr>"

text \<open>Interfax, trigger never found, every round shows an empty page:\<close>

definition silent_env :: "nat \<Rightarrow> node page_obs" where
  "silent_env r = \<lparr>load_more_clicked = False, page_source = Some empty_page\<rparr>"

definition interfax_init :: interfax_state where
  "interfax_init = \<lparr>rounds = 0, collected = [], seen = {}, no_new_count = 0\<rparr>"

text \<open>A Finam \<open>articles\<close> dictionary with one record, and one with a ten-letter title.\<close>

definition rynok_url :: pystr where
  "rynok_url = str ''https://www.finam.ru/publications/item/rynok-vyros-20240702-1943/''"

definition kept_articles :: "(pystr \<times> article_info) list" where
  "kept_articles =
     [(rynok_url, \<lparr>date = str ''2024-07-02 19:43'', title = str ''Rynok akciy vyros na torgah'',
                   url = rynok_url\<rparr>)]"

definition short_articles :: "(pystr \<times> article_info) list" where
  "short_articles =
     [(rynok_url, \<lparr>date = str ''2024-07-02 19:43'', title = str ''Rynok rost'',
                   url = rynok_url\<rparr>)]"





text \<open>An anchor with a ruby annotation: the text below \<open>rt\<close> is a \<open>RubyTextString\<close>.\<close>

definition ruby_text :: node where
  "ruby_text = el ''rt'' [] [] [NavigableString RubyTextString (str ''rublya'')]"

definition ruby_anchor :: node where
  "ruby_anchor =
     el ''a'' [] [(''href'', ''https://www.finam.ru/publications/item/ruby-20240702-1943/'')]
       [el ''ruby'' [] [] [tx ''Kurs'', ruby_text], tx ''vyros'']"

section \<open>Lemmas\<close>

text \<open>
  Equations without patterns on the natural numbers, for evaluating the functions that
  count down.
\<close>

lemma nearest_date_code [code]:
  "nearest_date levels current =
     (if levels = 0 then None
      else (case current of
              None \<Rightarrow> None
            | Some cur \<Rightarrow>
                (case find_tag cur (is_tag (str ''time'')) of
                   None \<Rightarrow> nearest_date (levels - 1) (parent cur)
                 | Some time_el \<Rightarrow>
                     (case time_date_iso time_el of
                        Some date_iso \<Rightarrow> Some date_iso
                      | None \<Rightarrow> nearest_date (levels - 1) (parent cur)))))"
  by (cases levels; cases current) (auto split: option.splits)

lemma interfax_loop_code [code]:
  "interfax_loop ex target_count env n round_num st =
     (if n = 0 then st
      else (case interfax_round ex target_count (env round_num) (st\<lparr>rounds := Suc round_num\<rparr>) of
              (Break, st') \<Rightarrow> st'
            | (Continue, st') \<Rightarrow> interfax_loop ex target_count env (n - 1) (Suc round_num) st'))"
  by (cases n) (auto split: prod.splits flow.splits)

lemma vedomosti_loop_code [code]:
  "vedomosti_loop parse target_count env n round_num st =
     (if n = 0 then st
      else (case vedomosti_round parse target_count (env round_num) (st\<lparr>rounds := Suc round_num\<rparr>) of
              (Break, st') \<Rightarrow> st'
            | (Continue, st') \<Rightarrow> vedomosti_loop parse target_count env (n - 1) (Suc round_num) st'))"
  by (cases n) (auto split: prod.splits flow.splits)

lemma finam_loop_code [code]:
  "finam_loop target_count env n i st =
     (if n = 0 then st
      else (case finam_round target_count (env i) (st\<lparr>rounds := Suc i\<rparr>) of
              (Break, st') \<Rightarrow> st'
            | (Continue, st') \<Rightarrow> finam_loop target_count env (n - 1) (Suc i) st'))"
  by (cases n) (auto split: prod.splits flow.splits)

lemma merge_chunk_seen_mono:
  "merge_chunk chunk (c, s, a) = (c', s', a') \<Longrightarrow> s \<subseteq> s'"
proof (induction chunk arbitrary: c s a)
  case Nil
  then show ?case by simp
next
  case (Cons item chunk)
  then show ?case by (auto split: if_splits dest: Cons.IH)
qed

lemma merge_chunk_keys_seen:
  "merge_chunk chunk (c, s, a) = (c', s', a') \<Longrightarrow> key_of ` set chunk \<subseteq> s'"
proof (induction chunk arbitrary: c s a)
  case Nil
  then show ?case by simp
next
  case (Cons item chunk)
  show ?case
  proof (cases "key_of item \<in> s")
    case True
    with Cons.prems have m: "merge_chunk chunk (c, s, a) = (c', s', a')" by simp
    from merge_chunk_seen_mono[OF m] True Cons.IH[OF m] show ?thesis by auto
  next
    case False
    with Cons.prems have m: "merge_chunk chunk (c @ [item], insert (key_of item) s, a + 1) = (c', s', a')"
      by simp
    from merge_chunk_seen_mono[OF m] Cons.IH[OF m] show ?thesis by auto
  qed
qed

lemma merge_chunk_all_seen:
  "key_of ` set chunk \<subseteq> s \<Longrightarrow> merge_chunk chunk (c, s, a) = (c, s, a)"
  by (induction chunk) auto


lemma interfax_round_rounds:
  "interfax_round ex tc ob st = (fl, st') \<Longrightarrow> rounds st' = rounds st"
  unfolding interfax_round_def
  by (auto simp: Let_def split: if_splits option.splits prod.splits)

lemma interfax_loop_rounds:
  "rounds (interfax_loop ex tc env n r st) \<le> max (rounds st) (r + n)"
proof (induction n arbitrary: r st)
  case 0
  then show ?case by simp
next
  case (Suc n)
  obtain fl st' where rd: "interfax_round ex tc (env r) (st\<lparr>rounds := Suc r\<rparr>) = (fl, st')"
    by (cases "interfax_round ex tc (env r) (st\<lparr>rounds := Suc r\<rparr>)") auto
  from interfax_round_rounds[OF rd] have r': "rounds st' = Suc r" by simp
  show ?case
  proof (cases fl)
    case Break
    with rd r' show ?thesis by simp
  next
    case Continue
    with rd r' Suc.IH[of "Suc r" st'] show ?thesis by simp
  qed
qed

lemma business_reparse_counters:
  "business_reparse ex ob tc st = (fl, st') \<Longrightarrow>
     rounds st' = rounds st \<and> no_click_count st' = no_click_count st"
  unfolding business_reparse_def
  by (auto simp: Let_def split: if_splits option.splits prod.splits)

lemma business_parse_counters: "keeps_counters (business_parse ex)"
  unfolding keeps_counters_def business_parse_def
  by (auto simp: Let_def split: if_splits option.splits prod.splits
      dest!: business_reparse_counters)

lemma economics_parse_counters: "keeps_counters (economics_parse ex)"
  unfolding keeps_counters_def economics_parse_def
  by (auto simp: Let_def split: if_splits option.splits prod.splits)

lemma vedomosti_round_counters:
  assumes "keeps_counters parse" and "vedomosti_round parse tc ob st = (fl, st')"
  shows "rounds st' = rounds st"
    and "no_click_count st' = (if load_more_clicked ob then 0 else no_click_count st + 1)"
  using assms unfolding vedomosti_round_def keeps_counters_def
  by (auto simp: Let_def split: if_splits prod.splits flow.splits)

lemma vedomosti_round_break:
  assumes "\<not> load_more_clicked ob" and "2 \<le> no_click_count st"
  shows "fst (vedomosti_round parse tc ob st) = Break"
  using assms unfolding vedomosti_round_def by (simp add: Let_def)

lemma vedomosti_loop_rounds:
  assumes "keeps_counters parse"
  shows "rounds (vedomosti_loop parse tc env n r st) \<le> max (rounds st) (r + n)"
proof (induction n arbitrary: r st)
  case 0
  then show ?case by simp
next
  case (Suc n)
  obtain fl st' where rd: "vedomosti_round parse tc (env r) (st\<lparr>rounds := Suc r\<rparr>) = (fl, st')"
    by (cases "vedomosti_round parse tc (env r) (st\<lparr>rounds := Suc r\<rparr>)") auto
  from vedomosti_round_counters(1)[OF assms rd] have r': "rounds st' = Suc r" by simp
  show ?case
  proof (cases fl)
    case Break
    with rd r' show ?thesis by simp
  next
    case Continue
    with rd r' Suc.IH[of "Suc r" st'] show ?thesis by simp
  qed
qed

lemma vedomosti_loop_not_found:
  assumes kc: "keeps_counters parse"
  shows "0 < m \<Longrightarrow> \<forall>j<m. \<not> load_more_clicked (env (r + j)) \<Longrightarrow> 3 \<le> no_click_count st + m
     \<Longrightarrow> rounds (vedomosti_loop parse tc env n r st) \<le> max (rounds st) (r + m)"
proof (induction m arbitrary: r st n)
  case 0
  then show ?case by simp
next
  case (Suc m)
  show ?case
  proof (cases n)
    case 0
    then show ?thesis by simp
  next
    case (Suc n')
    let ?st = "st\<lparr>rounds := Suc r\<rparr>"
    obtain fl st' where rd: "vedomosti_round parse tc (env r) ?st = (fl, st')"
      by (cases "vedomosti_round parse tc (env r) ?st") auto
    from Suc.prems(2) have nc: "\<not> load_more_clicked (env r)" by force
    from vedomosti_round_counters[OF kc rd] nc
    have r': "rounds st' = Suc r" and c': "no_click_count st' = no_click_count st + 1" by simp_all
    show ?thesis
    proof (cases fl)
      case Break
      with rd r' Suc show ?thesis by simp
    next
      case Continue
      have "no_click_count st < 2"
      proof (rule ccontr)
        assume "\<not> no_click_count st < 2"
        then have "2 \<le> no_click_count ?st" by simp
        from vedomosti_round_break[OF nc this, of parse tc] rd Continue show False by simp
      qed
      with Suc.prems(3) have m0: "0 < m" by simp
      have a: "\<forall>j<m. \<not> load_more_clicked (env (Suc r + j))"
      proof (intro allI impI)
        fix j assume "j < m"
        then have "Suc j < Suc m" by simp
        with Suc.prems(2) have "\<not> load_more_clicked (env (r + Suc j))" by blast
        then show "\<not> load_more_clicked (env (Suc r + j))" by simp
      qed
      from Suc.prems(3) c' have b: "3 \<le> no_click_count st' + m" by simp
      from Suc.IH[OF m0 a b, of n'] r' have "rounds (vedomosti_loop parse tc env n' (Suc r) st') \<le> Suc r + m"
        by simp
      with rd Continue Suc show ?thesis by simp
    qed
  qed
qed

lemma interfax_round_no_new:
  assumes "\<not> load_more_clicked ob" and "no_new_item ex ob (seen st)"
    and "interfax_round ex tc ob st = (fl, st')"
  shows "seen st' = seen st" and "no_new_count st' = no_new_count st + 1"
    and "2 \<le> no_new_count st \<Longrightarrow> fl = Break"
  using assms unfolding interfax_round_def no_new_item_def
  by (auto simp: Let_def merge_chunk_all_seen split: if_splits option.splits prod.splits)

lemma interfax_loop_not_found:
  "0 < m \<Longrightarrow>
   \<forall>j<m. \<not> load_more_clicked (env (r + j)) \<and> no_new_item ex (env (r + j)) (seen st) \<Longrightarrow>
   3 \<le> no_new_count st + m \<Longrightarrow>
   rounds (interfax_loop ex tc env n r st) \<le> max (rounds st) (r + m)"
proof (induction m arbitrary: r st n)
  case 0
  then show ?case by simp
next
  case (Suc m)
  show ?case
  proof (cases n)
    case 0
    then show ?thesis by simp
  next
    case (Suc n')
    let ?st = "st\<lparr>rounds := Suc r\<rparr>"
    obtain fl st' where rd: "interfax_round ex tc (env r) ?st = (fl, st')"
      by (cases "interfax_round ex tc (env r) ?st") auto
    from Suc.prems(2) have nc: "\<not> load_more_clicked (env r)"
      and nn: "no_new_item ex (env r) (seen ?st)" by force+
    from interfax_round_rounds[OF rd] have r': "rounds st' = Suc r" by simp
    from interfax_round_no_new[OF nc nn rd]
    have s': "seen st' = seen st" and c': "no_new_count st' = no_new_count st + 1"
      and br: "2 \<le> no_new_count st \<Longrightarrow> fl = Break" by simp_all
    show ?thesis
    proof (cases fl)
      case Break
      with rd r' Suc show ?thesis by simp
    next
      case Continue
      with br have "no_new_count st < 2" by fastforce
      with Suc.prems(3) have m0: "0 < m" by simp
      have a: "\<forall>j<m. \<not> load_more_clicked (env (Suc r + j))
                 \<and> no_new_item ex (env (Suc r + j)) (seen st')"
      proof (intro allI impI)
        fix j assume "j < m"
        then have "Suc j < Suc m" by simp
        with Suc.prems(2) have "\<not> load_more_clicked (env (r + Suc j))
            \<and> no_new_item ex (env (r + Suc j)) (seen st)" by blast
        with s' show "\<not> load_more_clicked (env (Suc r + j))
            \<and> no_new_item ex (env (Suc r + j)) (seen st')" by simp
      qed
      from Suc.prems(3) c' have b: "3 \<le> no_new_count st' + m" by simp
      from Suc.IH[OF m0 a b, of n'] r'
      have "rounds (interfax_loop ex tc env n' (Suc r) st') \<le> Suc r + m" by simp
      with rd Continue Suc show ?thesis by simp
    qed
  qed
qed

lemma finam_round_rounds:
  "finam_round tc ob st = (fl, st') \<Longrightarrow> rounds st' = rounds st"
  unfolding finam_round_def finam_count_def
  by (auto simp: Let_def split: if_splits option.splits prod.splits flow.splits)

lemma finam_loop_rounds:
  "rounds (finam_loop tc env n i st) \<le> max (rounds st) (i + n)"
proof (induction n arbitrary: i st)
  case 0
  then show ?case by simp
next
  case (Suc n)
  obtain fl st' where rd: "finam_round tc (env i) (st\<lparr>rounds := Suc i\<rparr>) = (fl, st')"
    by (cases "finam_round tc (env i) (st\<lparr>rounds := Suc i\<rparr>)") auto
  from finam_round_rounds[OF rd] have r': "rounds st' = Suc i" by simp
  show ?case
  proof (cases fl)
    case Break
    with rd r' show ?thesis by simp
  next
    case Continue
    with rd r' Suc.IH[of "Suc i" st'] show ?thesis by simp
  qed
qed

lemma business_round_reset:
  assumes "time_count ob = Some tc" and "page_source ob = Some html"
    and "merge_chunk (ex html) (collected st, seen st, 0) = (c, s, a)"
    and "page_reset_detected c tc (ex html)"
  shows "fst (vedomosti_round (business_parse ex) target ob st) = Break"
  using assms unfolding vedomosti_round_def business_parse_def
  by (auto simp: Let_def split: prod.splits flow.splits)

lemma economics_round_reset:
  assumes "time_count ob = Some tc" and "page_source ob = Some html"
    and "merge_chunk (ex html) (collected st, seen st, 0) = (c, s, a)"
    and "page_reset_detected c tc (ex html)"
  shows "fst (vedomosti_round (economics_parse ex) target ob st) = Break"
  using assms unfolding vedomosti_round_def economics_parse_def
  by (auto simp: Let_def split: prod.splits flow.splits)

lemma vedomosti_loop_break:
  assumes "keeps_counters parse"
    and "fst (vedomosti_round parse tc (env r) (st\<lparr>rounds := Suc r\<rparr>)) = Break"
  shows "rounds (vedomosti_loop parse tc env (Suc n) r st) = Suc r"
proof -
  obtain fl st' where rd: "vedomosti_round parse tc (env r) (st\<lparr>rounds := Suc r\<rparr>) = (fl, st')"
    by (cases "vedomosti_round parse tc (env r) (st\<lparr>rounds := Suc r\<rparr>)") auto
  from vedomosti_round_counters(1)[OF assms(1) rd] assms(2) rd show ?thesis by simp
qed

lemma merge_chunk_invariant:
  assumes "merge_chunk chunk (c, s, a) = (c', s', a')"
    and "distinct (map key_of c)" and "s = key_of ` set c"
  shows "distinct (map key_of c') \<and> s' = key_of ` set c' \<and> set c' \<subseteq> set c \<union> set chunk"
  using assms
proof (induction chunk arbitrary: c s a)
  case Nil
  then show ?case by auto
next
  case (Cons item chunk)
  show ?case
  proof (cases "key_of item \<in> s")
    case True
    with Cons.prems have m: "merge_chunk chunk (c, s, a) = (c', s', a')" by simp
    from Cons.IH[OF m Cons.prems(2,3)] show ?thesis by auto
  next
    case False
    with Cons.prems have m:
      "merge_chunk chunk (c @ [item], insert (key_of item) s, a + 1) = (c', s', a')" by simp
    have d: "distinct (map key_of (c @ [item]))" using Cons.prems(2,3) False by auto
    have e: "insert (key_of item) s = key_of ` set (c @ [item])" using Cons.prems(3) by auto
    from Cons.IH[OF m d e] show ?thesis by auto
  qed
qed

lemma akm_item_fields:
  "akm_item block = Some it \<Longrightarrow>
     title it \<noteq> [] \<and> date it \<noteq> [] \<and> date it = akm_date_text block"
  unfolding akm_item_def
  by (auto simp: Let_def split: option.splits if_splits)

lemma interfax_item_title: "interfax_item unescape time_el = Some it \<Longrightarrow> title it \<noteq> []"
  unfolding interfax_item_def
  by (auto simp: Let_def split: option.splits if_splits)

lemma time_candidate_title:
  "time_candidate is_news_link unescape time_el = Some it \<Longrightarrow> title it \<noteq> []"
  unfolding time_candidate_def
  by (auto simp: Let_def split: option.splits if_splits)

lemma link_candidate_title: "link_candidate unescape a = Some it \<Longrightarrow> title it \<noteq> []"
  unfolding link_candidate_def
  by (auto simp: Let_def split: option.splits if_splits)

lemma strategy_loop_invariant:
  assumes "strategy_loop cand els (res, sk) = (res', sk')"
    and "\<And>e it. cand e = Some it \<Longrightarrow> title it \<noteq> []"
    and "distinct (map key_of res)" and "sk = key_of ` set res"
    and "\<forall>it\<in>set res. title it \<noteq> []"
  shows "distinct (map key_of res') \<and> sk' = key_of ` set res'
         \<and> (\<forall>it\<in>set res'. title it \<noteq> [])"
  using assms(1,3,4,5)
proof (induction els arbitrary: res sk)
  case Nil
  then show ?case by auto
next
  case (Cons e els)
  show ?case
  proof (cases "cand e")
    case None
    with Cons.prems(1) have m: "strategy_loop cand els (res, sk) = (res', sk')" by simp
    from Cons.IH[OF m Cons.prems(2,3,4)] show ?thesis .
  next
    case (Some it)
    show ?thesis
    proof (cases "key_of it \<in> sk")
      case True
      with Some Cons.prems(1) have m: "strategy_loop cand els (res, sk) = (res', sk')" by simp
      from Cons.IH[OF m Cons.prems(2,3,4)] show ?thesis .
    next
      case False
      with Some Cons.prems(1) have m:
        "strategy_loop cand els (res @ [it], insert (key_of it) sk) = (res', sk')" by simp
      have d: "distinct (map key_of (res @ [it]))" using Cons.prems(2,3) False by auto
      have k: "insert (key_of it) sk = key_of ` set (res @ [it])" using Cons.prems(3) by auto
      have t: "\<forall>x\<in>set (res @ [it]). title x \<noteq> []"
        using Cons.prems(4) assms(2)[OF Some] by auto
      from Cons.IH[OF m d k t] show ?thesis .
    qed
  qed
qed

lemma vedomosti_extract_properties:
  "distinct (map key_of (vedomosti_extract_news_from_page f g unescape soup))
   \<and> (\<forall>it\<in>set (vedomosti_extract_news_from_page f g unescape soup). title it \<noteq> [])"
proof -
  let ?times = "find_all (soup, []) (is_tag (str ''time''))"
  let ?links = "find_all (soup, []) (\<lambda>x. is_tag (str ''a'') x \<and> attr_matches (str ''href'') g x)"
  obtain r1 s1 where a1: "strategy_loop (time_candidate f unescape) ?times ([], {}) = (r1, s1)"
    by (cases "strategy_loop (time_candidate f unescape) ?times ([], {})") auto
  obtain r2 s2 where a2: "strategy_loop (link_candidate unescape) ?links (r1, s1) = (r2, s2)"
    by (cases "strategy_loop (link_candidate unescape) ?links (r1, s1)") auto
  have i1: "distinct (map key_of r1) \<and> s1 = key_of ` set r1 \<and> (\<forall>it\<in>set r1. title it \<noteq> [])"
    by (rule strategy_loop_invariant[OF a1]) (auto dest: time_candidate_title)
  have i2: "distinct (map key_of r2) \<and> s2 = key_of ` set r2 \<and> (\<forall>it\<in>set r2. title it \<noteq> [])"
    using i1 by (intro strategy_loop_invariant[OF a2]) (auto dest: link_candidate_title)
  have "vedomosti_extract_news_from_page f g unescape soup = r2"
    unfolding vedomosti_extract_news_from_page_def using a1 a2 by (simp add: Let_def)
  with i2 show ?thesis by simp
qed

lemma choose_title_fields:
  "url (choose_title text info) = url info \<and> date (choose_title text info) = date info"
  unfolding choose_title_def by simp

lemma map_of_retitle:
  "map_of (map (\<lambda>(k, v). if k = u then (k, f v) else (k, v)) arts) u = map_option f (map_of arts u)"
  by (induction arts) auto

lemma map_fst_retitle:
  "map fst (map (\<lambda>(k, v). if k = u then (k, f v) else (k, v)) arts) = map fst arts"
  by (induction arts) auto


lemma record_anchor_wf: "articles_wf arts \<Longrightarrow> articles_wf (record_anchor u t arts)"
  unfolding articles_wf_def record_anchor_def
  by (auto simp: choose_title_fields split: option.splits)

lemma collect_articles_wf:
  "articles_wf arts \<Longrightarrow> articles_wf (collect_articles urljoin as arts)"
  by (induction as arbitrary: arts) (auto simp: record_anchor_wf split: option.splits)





lemma map_filter_member:
  "y \<in> set (List.map_filter f xs) \<Longrightarrow> \<exists>x\<in>set xs. f x = Some y"
  by (induction xs) (auto split: option.splits)

lemma get_akm_news_member:
  "it \<in> set (get_akm_news isalnum soup) \<Longrightarrow> \<exists>block. akm_item block = Some it"
  unfolding get_akm_news_def by (blast dest: map_filter_member)

lemma interfax_extract_member:
  "it \<in> set (interfax_extract_news_from_page unescape soup) \<Longrightarrow>
     \<exists>time_el. interfax_item unescape time_el = Some it"
  unfolding interfax_extract_news_from_page_def
  by (auto simp: Let_def split: if_splits dest!: map_filter_member)

lemma article_item_title:
  "url_segment (url info) \<noteq> [] \<Longrightarrow> title (article_item info) \<noteq> []"
  unfolding article_item_def by simp

lemma finam_articles_wf: "articles_wf (finam_articles urljoin soup)"
  unfolding finam_articles_def by (rule collect_articles_wf) (simp add: articles_wf_def)

lemma map_of_retitle_other:
  "u' \<noteq> u \<Longrightarrow>
     map_of (map (\<lambda>(k, v). if k = u then (k, f v) else (k, v)) arts) u' = map_of arts u'"
  by (induction arts) auto

lemma replace_T_fixed:
  "(map (\<lambda>c. if c = 84 then 32 else c) s = s) = ((84::nat) \<notin> set s)"
  by (induction s) auto

lemma merge_chunk_fresh:
  "distinct (map key_of chunk) \<Longrightarrow> key_of ` set chunk \<inter> s = {} \<Longrightarrow>
     merge_chunk chunk (c, s, a) = (c @ chunk, s \<union> key_of ` set chunk, a + length chunk)"
proof (induction chunk arbitrary: c s a)
  case Nil
  then show ?case by simp
next
  case (Cons item chunk)
  from Cons.prems have n: "key_of item \<notin> s" by auto
  from Cons.prems have d: "distinct (map key_of chunk)"
    and i: "key_of ` set chunk \<inter> insert (key_of item) s = {}" by auto
  from Cons.IH[OF d i, of "c @ [item]" "a + 1"] n show ?case by auto
qed

lemma item_no_inj: "inj (\<lambda>i. key_of (item_no i))"
proof (rule injI)
  fix i j assume "key_of (item_no i) = key_of (item_no j)"
  then have "replicate (Suc i) (120::nat) = replicate (Suc j) 120"
    by (simp add: key_of_def item_no_def)
  then have "length (replicate (Suc i) (120::nat)) = length (replicate (Suc j) (120::nat))"
    by (rule arg_cong)
  then show "i = j" by simp
qed

lemma numbered_items_length: "length (numbered_items n) = n"
  by (simp add: numbered_items_def)

lemma numbered_items_distinct: "distinct (map key_of (numbered_items n))"
proof -
  have "map key_of (numbered_items n) = map (\<lambda>i. key_of (item_no i)) [0..<n]"
    by (simp add: numbered_items_def)
  moreover have "distinct (map (\<lambda>i. key_of (item_no i)) [0..<n])"
    using item_no_inj by (auto simp: distinct_map inj_on_def)
  ultimately show ?thesis by simp
qed

lemma numbered_items_mono: "m \<le> n \<Longrightarrow> set (numbered_items m) \<subseteq> set (numbered_items n)"
  by (auto simp: numbered_items_def)

lemma merge_numbered_first:
  "merge_chunk (numbered_items n) ([], {}, 0) =
     (numbered_items n, key_of ` set (numbered_items n), n)"
  using merge_chunk_fresh[OF numbered_items_distinct, of n "{}" "[]" 0]
  by (simp add: numbered_items_length)

lemma merge_numbered_again:
  "m \<le> n \<Longrightarrow>
     merge_chunk (numbered_items m) (numbered_items n, key_of ` set (numbered_items n), 0) =
       (numbered_items n, key_of ` set (numbered_items n), 0)"
  using numbered_items_mono[of m n] by (intro merge_chunk_all_seen) blast

lemma numbered_items_none: "numbered_items 0 = []"
  by (simp add: numbered_items_def)

lemma reset_env_first_round:
  "vedomosti_round (business_parse numbered_items) 10000 (reset_env 0)
     (vedomosti_init\<lparr>rounds := Suc 0\<rparr>) = (Continue, after_sixty)"
  "vedomosti_round (economics_parse numbered_items) 10000 (reset_env 0)
     (vedomosti_init\<lparr>rounds := Suc 0\<rparr>) = (Continue, after_sixty)"
  by (simp_all add: vedomosti_round_def business_parse_def economics_parse_def reset_env_def
      vedomosti_init_def after_sixty_def merge_numbered_first page_reset_detected_def
      numbered_items_length)

lemma emptied_env_run:
  "interfax_run numbered_items emptied_env 3 10000 =
     \<lparr>rounds = 3, collected = numbered_items 60, seen = key_of ` set (numbered_items 60),
      no_new_count = 0\<rparr>"
  by (simp add: interfax_run_def numeral_3_eq_3 interfax_round_def emptied_env_def
      merge_numbered_first numbered_items_none numbered_items_length)

lemma get_text_ruby:
  "get_text (str '' '') ruby_anchor = str ''Kurs vyros''
   \<and> get_text (str '' '') ruby_text = str ''rublya''"
  by code_simp

lemma search_token_None: "(search_token u = None) = (token_positions u = [])"
proof -
  have "(search_token u = None) = (\<forall>i<length u. token_at (drop i u) = None)"
  proof (induction u)
    case Nil
    then show ?case by simp
  next
    case (Cons c cs)
    have "(\<forall>i<Suc (length cs). token_at (drop i (c # cs)) = None)
        = (token_at (c # cs) = None \<and> (\<forall>i<length cs. token_at (drop i cs) = None))"
      by (auto simp: less_Suc_eq_0_disj)
    with Cons show ?case by (auto split: option.splits)
  qed
  then show ?thesis by (auto simp: token_positions_def filter_empty_conv)
qed

lemma parse_datetime_empty: "(parse_datetime_from_url u = []) = (token_positions u = [])"
  unfolding search_token_None[symmetric] parse_datetime_from_url_def
  by (auto simp: str_def split: option.splits)

















lemma first_occurrences_twice:
  "first_occurrences [a, b, a] = (if a = b then [a] else [a, b])"
  by simp

lemma first_occurrences_set: "set (first_occurrences xs) = set xs \<and> distinct (first_occurrences xs)"
  by simp







section \<open>The claims\<close>

text \<open>
  Claim C1, as stated: no extractor returns an item with an empty title, nor two items
  with the same \<open>(date, title)\<close> key. \<open>get_akm_news\<close> has no set of seen keys: on a page
  that shows the same news block twice it returns the item twice.
\<close>

theorem akm_duplicate_keys:
  "\<not> distinct (map key_of (get_akm_news isalnum_ascii akm_page_twice))"
  by code_simp

text \<open>
  Claim C1, amended. For every page, the AKM, Interfax and Vedomosti extractors return no
  item with an empty title, and the two Vedomosti extractors return no two items with the
  same key. The Finam extractor gives every recorded URL an item whose title is non-empty
  whenever the second-to-last segment of the URL is. For the extractors without a set of
  seen keys the duplicates go after extraction: merging a chunk into the empty accumulator
  collects each key of the chunk once.
\<close>

theorem extractors_titles_and_keys:
  "(\<forall>it\<in>set (get_akm_news isalnum soup). title it \<noteq> [])
   \<and> (\<forall>it\<in>set (interfax_extract_news_from_page unescape soup). title it \<noteq> [])
   \<and> (\<forall>it\<in>set (business_extract_news_from_page unescape soup). title it \<noteq> [])
   \<and> distinct (map key_of (business_extract_news_from_page unescape soup))
   \<and> (\<forall>it\<in>set (economics_extract_news_from_page unescape soup). title it \<noteq> [])
   \<and> distinct (map key_of (economics_extract_news_from_page unescape soup))
   \<and> (\<forall>kv\<in>set (finam_articles urljoin soup).
         url_segment (fst kv) \<noteq> [] \<longrightarrow> title (article_item (snd kv)) \<noteq> [])
   \<and> (case merge_chunk chunk ([], {}, 0) of
         (c, s, a) \<Rightarrow> distinct (map key_of c) \<and> set c \<subseteq> set chunk
                      \<and> key_of ` set c = key_of ` set chunk)"
proof -
  have akm: "\<forall>it\<in>set (get_akm_news isalnum soup). title it \<noteq> []"
    using get_akm_news_member akm_item_fields by blast
  have ifx: "\<forall>it\<in>set (interfax_extract_news_from_page unescape soup). title it \<noteq> []"
    using interfax_extract_member interfax_item_title by blast
  have bus: "(\<forall>it\<in>set (business_extract_news_from_page unescape soup). title it \<noteq> [])
      \<and> distinct (map key_of (business_extract_news_from_page unescape soup))"
    unfolding business_extract_news_from_page_def
    using vedomosti_extract_properties[of business_is_news_link business_links unescape soup]
    by simp
  have eco: "(\<forall>it\<in>set (economics_extract_news_from_page unescape soup). title it \<noteq> [])
      \<and> distinct (map key_of (economics_extract_news_from_page unescape soup))"
    unfolding economics_extract_news_from_page_def
    using vedomosti_extract_properties[of economics_is_news_link econ_links unescape soup]
    by simp
  have fin: "\<forall>kv\<in>set (finam_articles urljoin soup).
         url_segment (fst kv) \<noteq> [] \<longrightarrow> title (article_item (snd kv)) \<noteq> []"
  proof (intro ballI impI)
    fix kv assume m: "kv \<in> set (finam_articles urljoin soup)" and u: "url_segment (fst kv) \<noteq> []"
    from finam_articles_wf[of urljoin soup] m have "url (snd kv) = fst kv"
      unfolding articles_wf_def by blast
    with u article_item_title[of "snd kv"] show "title (article_item (snd kv)) \<noteq> []" by simp
  qed
  have mrg: "(case merge_chunk chunk ([], {}, 0) of
         (c, s, a) \<Rightarrow> distinct (map key_of c) \<and> set c \<subseteq> set chunk
                      \<and> key_of ` set c = key_of ` set chunk)"
  proof -
    obtain c s a where m: "merge_chunk chunk ([], {}, 0) = (c, s, a)"
      by (cases "merge_chunk chunk ([], {}, 0)") auto
    from merge_chunk_invariant[OF m] have i: "distinct (map key_of c)" "s = key_of ` set c"
      "set c \<subseteq> set chunk" by auto
    from merge_chunk_keys_seen[OF m] i have "key_of ` set c = key_of ` set chunk" by blast
    with i m show ?thesis by simp
  qed
  from akm ifx bus eco fin mrg show ?thesis by blast
qed

text \<open>
  The Vedomosti page of two cards gives two titled items with distinct keys; the Interfax
  page gives the same item twice, and the merge keeps one.
\<close>

theorem extractors_titles_and_keys_witness:
  "business_extract_news_from_page unescape_plain vedomosti_page =
     [\<lparr>date = str ''2026-02-05'', title = str ''Pervaya novost''\<rparr>,
      \<lparr>date = str ''2026-02-04'', title = str ''Vtoraya novost''\<rparr>]
   \<and> distinct (map key_of (business_extract_news_from_page unescape_plain vedomosti_page))
   \<and> interfax_extract_news_from_page unescape_plain interfax_page =
     [\<lparr>date = str ''2026-02-05 12:18'', title = str ''Rubl ukrepilsya''\<rparr>,
      \<lparr>date = str ''2026-02-05 12:18'', title = str ''Rubl ukrepilsya''\<rparr>]
   \<and> fst (merge_chunk (interfax_extract_news_from_page unescape_plain interfax_page) ([], {}, 0)) =
     [\<lparr>date = str ''2026-02-05 12:18'', title = str ''Rubl ukrepilsya''\<rparr>]"
proof -
  have v: "business_extract_news_from_page unescape_plain vedomosti_page =
     [\<lparr>date = str ''2026-02-05'', title = str ''Pervaya novost''\<rparr>,
      \<lparr>date = str ''2026-02-04'', title = str ''Vtoraya novost''\<rparr>]"
    by code_simp
  have i: "interfax_extract_news_from_page unescape_plain interfax_page =
     [\<lparr>date = str ''2026-02-05 12:18'', title = str ''Rubl ukrepilsya''\<rparr>,
      \<lparr>date = str ''2026-02-05 12:18'', title = str ''Rubl ukrepilsya''\<rparr>]"
    by code_simp
  have m: "fst (merge_chunk (interfax_extract_news_from_page unescape_plain interfax_page) ([], {}, 0)) =
     [\<lparr>date = str ''2026-02-05 12:18'', title = str ''Rubl ukrepilsya''\<rparr>]"
    by code_simp
  from extractors_titles_and_keys[of isalnum_ascii vedomosti_page unescape_plain urljoin_absolute
      "interfax_extract_news_from_page unescape_plain interfax_page"]
  have "distinct (map key_of (business_extract_news_from_page unescape_plain vedomosti_page))"
    by blast
  with v i m show ?thesis by blast
qed

text \<open>
  Claim C2, as stated: every harvester loop stops once the accumulator holds more than
  fifty items and both the number of \<open>time\<close> elements and the number of items parsed in the
  round are below 30% of its size. The Interfax loop has no such test: after a first round
  that collects sixty items, two rounds with a found trigger and an empty page (no
  \<open>time\<close> element, nothing parsed) are both performed, up to the cap of three rounds.
\<close>

theorem interfax_no_page_reset_test:
  "rounds (interfax_run numbered_items emptied_env 3 10000) = 3
   \<and> collected (interfax_run numbered_items emptied_env 3 10000) = numbered_items 60
   \<and> length (numbered_items 60) = 60
   \<and> page_source (emptied_env 1) = Some 0 \<and> numbered_items 0 = []"
  by (simp add: emptied_env_run numbered_items_length numbered_items_none emptied_env_def)

text \<open>
  Claim C2, amended. In both Vedomosti loops, from any state at the start of any round: if
  the round counts \<open>tc\<close> \<open>time\<close> elements and reads a page, and after the merge of the
  page's items the collected list \<open>c\<close> holds more than fifty items while both \<open>tc\<close> and the
  number of items parsed are below \<open>0.3\<close> times its length, then this round is the last.
\<close>

theorem page_reset_stops_vedomosti:
  "time_count (venv r) = Some tc \<and> page_source (venv r) = Some html
   \<and> merge_chunk (vex html) (collected vst, seen vst, 0) = (c, s, a)
   \<and> 50 < length c \<and> (of_nat tc :: rat) < of_nat (length c) * 0.3
   \<and> (of_nat (length (vex html)) :: rat) < of_nat (length c) * 0.3
   \<longrightarrow> rounds (vedomosti_loop (business_parse vex) target_count venv (Suc n) r vst) = Suc r
       \<and> rounds (vedomosti_loop (economics_parse vex) target_count venv (Suc n) r vst) = Suc r"
proof (intro impI)
  assume h: "time_count (venv r) = Some tc \<and> page_source (venv r) = Some html
   \<and> merge_chunk (vex html) (collected vst, seen vst, 0) = (c, s, a)
   \<and> 50 < length c \<and> (of_nat tc :: rat) < of_nat (length c) * 0.3
   \<and> (of_nat (length (vex html)) :: rat) < of_nat (length c) * 0.3"
  let ?st = "vst\<lparr>rounds := Suc r\<rparr>"
  from h have m: "merge_chunk (vex html) (collected ?st, seen ?st, 0) = (c, s, a)" by simp
  from h have p: "page_reset_detected c tc (vex html)" by (simp add: page_reset_detected_def)
  from h have t: "time_count (venv r) = Some tc" and q: "page_source (venv r) = Some html"
    by simp_all
  have b: "fst (vedomosti_round (business_parse vex) target_count (venv r) ?st) = Break"
    by (rule business_round_reset[where ex=vex and html=html, OF t q m p])
  have e: "fst (vedomosti_round (economics_parse vex) target_count (venv r) ?st) = Break"
    by (rule economics_round_reset[where ex=vex and html=html, OF t q m p])
  from vedomosti_loop_break[where env=venv and r=r and st=vst, OF business_parse_counters b]
       vedomosti_loop_break[where env=venv and r=r and st=vst, OF economics_parse_counters e]
  show "rounds (vedomosti_loop (business_parse vex) target_count venv (Suc n) r vst) = Suc r
       \<and> rounds (vedomosti_loop (economics_parse vex) target_count venv (Suc n) r vst) = Suc r"
    by blast
qed

text \<open>
  A first round collects sixty items; in the second round the page shows five of them
  again. Both loops end after the second of five hundred rounds.
\<close>

theorem page_reset_stops_vedomosti_witness:
  "time_count (reset_env 1) = Some 5 \<and> page_source (reset_env 1) = Some 5
   \<and> length (numbered_items 60) = 60 \<and> length (numbered_items 5) = 5
   \<and> merge_chunk (numbered_items 5) (collected after_sixty, seen after_sixty, 0) =
       (numbered_items 60, key_of ` set (numbered_items 60), 0)
   \<and> rounds (business_run numbered_items reset_env 500 10000) = 2
   \<and> rounds (economics_run numbered_items reset_env 500 10000) = 2"
proof -
  have o: "time_count (reset_env 1) = Some 5 \<and> page_source (reset_env 1) = Some 5"
    by (simp add: reset_env_def)
  have m: "merge_chunk (numbered_items 5) (collected after_sixty, seen after_sixty, 0) =
       (numbered_items 60, key_of ` set (numbered_items 60), 0)"
    using merge_numbered_again[of 5 60] by (simp add: after_sixty_def)
  have r: "rounds (vedomosti_loop (business_parse numbered_items) 10000 reset_env (Suc 498) 1 after_sixty) = Suc 1
      \<and> rounds (vedomosti_loop (economics_parse numbered_items) 10000 reset_env (Suc 498) 1 after_sixty) = Suc 1"
    using page_reset_stops_vedomosti[of reset_env 1 5 5 numbered_items after_sixty
        "numbered_items 60" "key_of ` set (numbered_items 60)" 0 10000 498] o m
    by (simp add: numbered_items_length)
  have "rounds (business_run numbered_items reset_env 500 10000) =
      rounds (vedomosti_loop (business_parse numbered_items) 10000 reset_env (Suc 499) 0 vedomosti_init)"
    by (simp add: business_run_def)
  also have "\<dots> = rounds (vedomosti_loop (business_parse numbered_items) 10000 reset_env 499 (Suc 0)
      after_sixty)"
    by (simp only: vedomosti_loop.simps reset_env_first_round prod.case flow.case)
  also have "\<dots> = 2" using r by simp
  finally have b: "rounds (business_run numbered_items reset_env 500 10000) = 2" .
  have "rounds (economics_run numbered_items reset_env 500 10000) =
      rounds (vedomosti_loop (economics_parse numbered_items) 10000 reset_env (Suc 499) 0 vedomosti_init)"
    by (simp add: economics_run_def)
  also have "\<dots> = rounds (vedomosti_loop (economics_parse numbered_items) 10000 reset_env 499 (Suc 0)
      after_sixty)"
    by (simp only: vedomosti_loop.simps reset_env_first_round prod.case flow.case)
  also have "\<dots> = 2" using r by simp
  finally have "rounds (economics_run numbered_items reset_env 500 10000) = 2" .
  with b have "rounds (business_run numbered_items reset_env 500 10000) = 2
      \<and> rounds (economics_run numbered_items reset_env 500 10000) = 2" by simp
  then show ?thesis using o m by (simp add: numbered_items_length)
qed

text \<open>
  Claim C3. Every harvest loop performs at most the configured number of rounds
  (\<open>max_clicks\<close>, \<open>max_rounds\<close>), whatever the session shows: in particular when the
  trigger is found in every round and every round yields only items already seen. The
  loops are total functions of the observations, so each run ends. (After its loop the
  Finam function prints the number of the last round and raises when there was none; see
  \<open>finam_scroll_and_load_all_news\<close>.)
\<close>

theorem harvest_loops_bounded:
  "rounds (interfax_run ex env max_clicks target_count) \<le> nat max_clicks
   \<and> rounds (business_run vex venv max_clicks target_count) \<le> nat max_clicks
   \<and> rounds (economics_run vex venv max_clicks target_count) \<le> nat max_clicks
   \<and> rounds (finam_run initial_height fenv max_rounds ftarget) \<le> nat max_rounds"
proof -
  have a: "rounds (interfax_run ex env max_clicks target_count) \<le> nat max_clicks"
    unfolding interfax_run_def
    using interfax_loop_rounds[of ex target_count env "nat max_clicks" 0
        "\<lparr>rounds = 0, collected = [], seen = {}, no_new_count = 0\<rparr>"] by simp
  have b: "rounds (business_run vex venv max_clicks target_count) \<le> nat max_clicks"
    unfolding business_run_def
    using vedomosti_loop_rounds[OF business_parse_counters, of vex target_count venv "nat max_clicks" 0 vedomosti_init]
    by (simp add: vedomosti_init_def)
  have c: "rounds (economics_run vex venv max_clicks target_count) \<le> nat max_clicks"
    unfolding economics_run_def
    using vedomosti_loop_rounds[OF economics_parse_counters, of vex target_count venv "nat max_clicks" 0 vedomosti_init]
    by (simp add: vedomosti_init_def)
  have d: "rounds (finam_run initial_height fenv max_rounds ftarget) \<le> nat max_rounds"
    unfolding finam_run_def
    using finam_loop_rounds[of ftarget fenv "nat max_rounds" 0
        "\<lparr>rounds = 0, last_height = initial_height, last_news_count = 0, same_height_count = 0\<rparr>"]
    by simp
  from a b c d show ?thesis by blast
qed

text \<open>
  The Interfax loop with a cap of four rounds, a trigger found in every round and a page
  that always shows the same two entries: it performs its four rounds and returns the two
  items.
\<close>

theorem harvest_loops_bounded_witness:
  "rounds (interfax_run (interfax_extract_news_from_page unescape_plain) repeating_env 4 10000) = 4
   \<and> length (collected (interfax_run (interfax_extract_news_from_page unescape_plain)
                 repeating_env 4 10000)) = 2
   \<and> rounds (interfax_run (interfax_extract_news_from_page unescape_plain) repeating_env 4 10000)
       \<le> nat 4"
proof -
  have "rounds (interfax_run (interfax_extract_news_from_page unescape_plain) repeating_env 4 10000) = 4"
    by code_simp
  moreover have "length (collected (interfax_run (interfax_extract_news_from_page unescape_plain)
                 repeating_env 4 10000)) = 2"
    by code_simp
  moreover from harvest_loops_bounded[of "interfax_extract_news_from_page unescape_plain"
      repeating_env 4 10000]
  have "rounds (interfax_run (interfax_extract_news_from_page unescape_plain) repeating_env 4 10000)
       \<le> nat 4" by blast
  ultimately show ?thesis by blast
qed

text \<open>
  Claim C4, as stated: every harvester loop stops after three consecutive rounds without
  the trigger. The Interfax counter \<open>no_new_count\<close> is set back to zero by every round
  that admits a new item, found trigger or not: with no trigger in any round and one new
  entry per round the loop runs to its cap of six rounds.
\<close>

theorem interfax_not_found_runs_on:
  "rounds (interfax_run (interfax_extract_news_from_page unescape_plain) growing_env 6 10000) = 6
   \<and> \<not> load_more_clicked (growing_env 0) \<and> \<not> load_more_clicked (growing_env 1)
   \<and> \<not> load_more_clicked (growing_env 2)"
proof -
  have "rounds (interfax_run (interfax_extract_news_from_page unescape_plain) growing_env 6 10000) = 6"
    by code_simp
  then show ?thesis by (simp add: growing_env_def)
qed

text \<open>
  Claim C4, amended. From any state at the start of any round \<open>r\<close>: if the trigger is not
  found in rounds \<open>r\<close>, \<open>r + 1\<close> and \<open>r + 2\<close>, both Vedomosti loops stop in round \<open>r + 2\<close> at
  the latest, that is, they perform at most \<open>r + 3\<close> rounds; the Interfax loop does so if,
  in addition, none of the three rounds admits a new item (its read of the page raises, or
  every item parsed is already seen).
\<close>

theorem not_found_thrice_stops:
  "(\<not> load_more_clicked (venv r) \<and> \<not> load_more_clicked (venv (r + 1))
      \<and> \<not> load_more_clicked (venv (r + 2))
     \<longrightarrow> rounds (vedomosti_loop (business_parse vex) target_count venv n r vst)
             \<le> max (rounds vst) (r + 3)
         \<and> rounds (vedomosti_loop (economics_parse vex) target_count venv n r vst)
             \<le> max (rounds vst) (r + 3))
   \<and> (\<not> load_more_clicked (env r) \<and> no_new_item ex (env r) (seen st)
      \<and> \<not> load_more_clicked (env (r + 1)) \<and> no_new_item ex (env (r + 1)) (seen st)
      \<and> \<not> load_more_clicked (env (r + 2)) \<and> no_new_item ex (env (r + 2)) (seen st)
     \<longrightarrow> rounds (interfax_loop ex target_count env n r st) \<le> max (rounds st) (r + 3))"
proof -
  have three: "(\<forall>j<3. P (r + j)) = (P r \<and> P (r + 1) \<and> P (r + 2))" for P :: "nat \<Rightarrow> bool"
  proof -
    have "(\<forall>j<3. Q j) = (Q 0 \<and> Q 1 \<and> Q 2)" for Q :: "nat \<Rightarrow> bool"
      by (auto simp: numeral_3_eq_3 numeral_2_eq_2 less_Suc_eq)
    from this[of "\<lambda>j. P (r + j)"] show ?thesis by simp
  qed
  have v: "rounds (vedomosti_loop parse target_count venv n r vst) \<le> max (rounds vst) (r + 3)"
    if "keeps_counters parse" and "\<not> load_more_clicked (venv r)"
      "\<not> load_more_clicked (venv (r + 1))" "\<not> load_more_clicked (venv (r + 2))" for parse
  proof -
    from that(2-4) have "\<forall>j<3. \<not> load_more_clicked (venv (r + j))"
      using three[of "\<lambda>k. \<not> load_more_clicked (venv k)"] by simp
    from vedomosti_loop_not_found[OF that(1) _ this, of vst target_count n] show ?thesis by simp
  qed
  have i: "rounds (interfax_loop ex target_count env n r st) \<le> max (rounds st) (r + 3)"
    if "\<not> load_more_clicked (env r) \<and> no_new_item ex (env r) (seen st)"
       "\<not> load_more_clicked (env (r + 1)) \<and> no_new_item ex (env (r + 1)) (seen st)"
       "\<not> load_more_clicked (env (r + 2)) \<and> no_new_item ex (env (r + 2)) (seen st)"
  proof -
    from that have "\<forall>j<3. \<not> load_more_clicked (env (r + j)) \<and> no_new_item ex (env (r + j)) (seen st)"
      using three[of "\<lambda>k. \<not> load_more_clicked (env k) \<and> no_new_item ex (env k) (seen st)"] by simp
    from interfax_loop_not_found[OF _ this, of target_count n] show ?thesis by simp
  qed
  from v[OF business_parse_counters] v[OF economics_parse_counters] i show ?thesis by blast
qed

text \<open>
  The example of the specification, on the business module: the first round yields A and
  B, the second B and C, then the page is empty and no trigger is found. The loop stops
  after five rounds of its five hundred with A, B and C collected in this order. The
  Interfax loop on an empty page without a trigger stops within three rounds.
\<close>

theorem not_found_thrice_stops_witness:
  "collected (business_run (business_extract_news_from_page unescape_plain) example_env 500 10000) =
     [\<lparr>date = str ''2026-02-05'', title = str ''Novost A''\<rparr>,
      \<lparr>date = str ''2026-02-05'', title = str ''Novost B''\<rparr>,
      \<lparr>date = str ''2026-02-04'', title = str ''Novost C''\<rparr>]
   \<and> rounds (business_run (business_extract_news_from_page unescape_plain) example_env 500 10000) = 5
   \<and> business_run (business_extract_news_from_page unescape_plain) example_env 2 10000 =
       after_two_rounds
   \<and> \<not> load_more_clicked (example_env 2) \<and> \<not> load_more_clicked (example_env 3)
   \<and> \<not> load_more_clicked (example_env 4)
   \<and> rounds (vedomosti_loop (business_parse (business_extract_news_from_page unescape_plain))
         10000 example_env 498 2 after_two_rounds) \<le> 5
   \<and> \<not> load_more_clicked (silent_env 0) \<and> no_new_item
         (interfax_extract_news_from_page unescape_plain) (silent_env 0) (seen interfax_init)
   \<and> rounds (interfax_loop (interfax_extract_news_from_page unescape_plain) 10000 silent_env
         500 0 interfax_init) \<le> 3"
proof -
  have a: "collected (business_run (business_extract_news_from_page unescape_plain) example_env 500 10000) =
     [\<lparr>date = str ''2026-02-05'', title = str ''Novost A''\<rparr>,
      \<lparr>date = str ''2026-02-05'', title = str ''Novost B''\<rparr>,
      \<lparr>date = str ''2026-02-04'', title = str ''Novost C''\<rparr>]"
    by code_simp
  have b: "rounds (business_run (business_extract_news_from_page unescape_plain) example_env 500 10000) = 5"
    by code_simp
  have c: "business_run (business_extract_news_from_page unescape_plain) example_env 2 10000 =
       after_two_rounds"
    by code_simp
  have d: "\<not> load_more_clicked (example_env 2) \<and> \<not> load_more_clicked (example_env (2 + 1))
      \<and> \<not> load_more_clicked (example_env (2 + 2))"
    by (simp add: example_env_def)
  have e: "rounds after_two_rounds = 2" by (simp add: after_two_rounds_def)
  have f: "\<not> load_more_clicked (silent_env k)
      \<and> no_new_item (interfax_extract_news_from_page unescape_plain) (silent_env k) (seen interfax_init)"
    for k
  proof -
    have "interfax_extract_news_from_page unescape_plain empty_page = []" by code_simp
    then show ?thesis by (simp add: silent_env_def no_new_item_def)
  qed
  have g: "rounds interfax_init = 0" by (simp add: interfax_init_def)
  from not_found_thrice_stops[where venv=example_env and r=2 and n=498 and vst=after_two_rounds
      and vex="business_extract_news_from_page unescape_plain" and target_count=10000
      and env=silent_env and st=interfax_init
      and ex="interfax_extract_news_from_page unescape_plain"] d e
  have v: "rounds (vedomosti_loop (business_parse (business_extract_news_from_page unescape_plain))
         10000 example_env 498 2 after_two_rounds) \<le> 5"
    by simp
  from not_found_thrice_stops[where env=silent_env and r=0 and n=500 and st=interfax_init
      and ex="interfax_extract_news_from_page unescape_plain" and target_count=10000
      and venv=example_env and vst=after_two_rounds
      and vex="business_extract_news_from_page unescape_plain"] f g
  have i: "rounds (interfax_loop (interfax_extract_news_from_page unescape_plain) 10000 silent_env
         500 0 interfax_init) \<le> 3"
    by simp
  from a b c d f[of 0] v i show ?thesis by simp
qed

text \<open>
  Claim C5. Merging is idempotent: for every accumulator state (the collected list \<open>c\<close>,
  the set \<open>s\<close> of seen keys, the counter \<open>a\<close> of added items) and every chunk, merging the
  same chunk again right after the first merge changes nothing; started with the counter
  at zero, as every round does, the second merge adds zero items.
\<close>

theorem merge_chunk_idempotent:
  "merge_chunk chunk (merge_chunk chunk st) = merge_chunk chunk st
   \<and> (case merge_chunk chunk (c, s, a) of
        (c', s', a') \<Rightarrow> merge_chunk chunk (c', s', 0) = (c', s', 0))"
proof -
  have x: "merge_chunk chunk (merge_chunk chunk t) = merge_chunk chunk t" for t
  proof -
    obtain c s a where t: "t = (c, s, a)" by (cases t) auto
    obtain c' s' a' where m: "merge_chunk chunk (c, s, a) = (c', s', a')"
      by (cases "merge_chunk chunk (c, s, a)") auto
    from merge_chunk_all_seen[OF merge_chunk_keys_seen[OF m]] t m show ?thesis by simp
  qed
  have y: "(case merge_chunk chunk (c, s, a) of
        (c', s', a') \<Rightarrow> merge_chunk chunk (c', s', 0) = (c', s', 0))"
  proof -
    obtain c' s' a' where m: "merge_chunk chunk (c, s, a) = (c', s', a')"
      by (cases "merge_chunk chunk (c, s, a)") auto
    from merge_chunk_all_seen[OF merge_chunk_keys_seen[OF m]] m show ?thesis by simp
  qed
  from x y show ?thesis by blast
qed

text \<open>
  Claim C6, as stated: one total normaliser that rewrites a dotted date, truncates an ISO
  date-time, and returns any other input unchanged. No function of the sources does all
  three. The Interfax expression changes text of neither form that holds a \<open>T\<close> ("Tomorrow");
  the Vedomosti date branch skips text of neither form ("not a date") instead of returning
  it; and \<open>dot_date_to_iso\<close> returns an ISO date-time unchanged instead of truncating it.
\<close>

theorem date_fallbacks_differ:
  "\<not> iso_prefix_match (str ''Tomorrow'') \<and> DATE_DOT_PATTERN_match (str ''Tomorrow'') = None
   \<and> interfax_date_str (str ''Tomorrow'') = str '' omorrow''
   \<and> vedomosti_date_iso (str ''not a date'') = None
   \<and> dot_date_to_iso (str ''2026-02-05T12:18:00'') = str ''2026-02-05T12:18:00''"
  by code_simp

text \<open>
  Claim C6, amended. \<open>dot_date_to_iso\<close> is total: it rewrites \<open>05.02.2026\<close> to
  \<open>2026-02-05\<close> and returns every input that, stripped, is not of the form DD.MM.YYYY
  unchanged ("not a date"). The truncation of ISO date-times is done by the extractors. The
  Vedomosti date branch cuts a text with an ISO date prefix to its first ten characters
  (\<open>2026-02-05T12:18:00\<close> to \<open>2026-02-05\<close>), rewrites a dotted date, and gives no date
  exactly for a text of neither form. The Interfax expression replaces every \<open>T\<close> by a space
  and keeps the first sixteen characters (\<open>2026-02-05T12:18:00\<close> to \<open>2026-02-05 12:18\<close>); it
  returns its input unchanged exactly when the input has no \<open>T\<close> and at most sixteen
  characters ("not a date").
\<close>

theorem date_normalisation:
  "dot_date_to_iso (str ''05.02.2026'') = str ''2026-02-05''
   \<and> (DATE_DOT_PATTERN_match (strip s) = None \<longrightarrow> dot_date_to_iso s = s)
   \<and> dot_date_to_iso (str ''not a date'') = str ''not a date''
   \<and> (iso_prefix_match s \<longrightarrow> vedomosti_date_iso s = Some (take 10 s))
   \<and> vedomosti_date_iso (str ''2026-02-05T12:18:00'') = Some (str ''2026-02-05'')
   \<and> vedomosti_date_iso (str ''05.02.2026'') = Some (str ''2026-02-05'')
   \<and> (vedomosti_date_iso s = None) = (\<not> iso_prefix_match s \<and> DATE_DOT_PATTERN_match s = None)
   \<and> interfax_date_str (str ''2026-02-05T12:18:00'') = str ''2026-02-05 12:18''
   \<and> interfax_date_str (str ''not a date'') = str ''not a date''
   \<and> (interfax_date_str s = s) = (84 \<notin> set s \<and> length s \<le> 16)
   \<and> (DATE_DOT_PATTERN_match (strip s) = Some (dd, mm, yyyy)
        \<longrightarrow> dot_date_to_iso s = yyyy @ str ''-'' @ mm @ str ''-'' @ dd)
   \<and> (\<not> iso_prefix_match s \<and> DATE_DOT_PATTERN_match s \<noteq> None
        \<longrightarrow> vedomosti_date_iso s = Some (dot_date_to_iso s))"
proof -
  have 1: "dot_date_to_iso (str ''05.02.2026'') = str ''2026-02-05''" by code_simp
  have 2: "DATE_DOT_PATTERN_match (strip s) = None \<longrightarrow> dot_date_to_iso s = s"
    by (simp add: dot_date_to_iso_def)
  have 3: "dot_date_to_iso (str ''not a date'') = str ''not a date''" by code_simp
  have 4: "iso_prefix_match s \<longrightarrow> vedomosti_date_iso s = Some (take 10 s)"
    by (simp add: vedomosti_date_iso_def slice_def)
  have 5: "vedomosti_date_iso (str ''2026-02-05T12:18:00'') = Some (str ''2026-02-05'')"
    by code_simp
  have 6: "vedomosti_date_iso (str ''05.02.2026'') = Some (str ''2026-02-05'')" by code_simp
  have 7: "(vedomosti_date_iso s = None) = (\<not> iso_prefix_match s \<and> DATE_DOT_PATTERN_match s = None)"
    by (cases "DATE_DOT_PATTERN_match s") (auto simp: vedomosti_date_iso_def)
  have 8: "interfax_date_str (str ''2026-02-05T12:18:00'') = str ''2026-02-05 12:18''"
    by code_simp
  have 9: "interfax_date_str (str ''not a date'') = str ''not a date''" by code_simp
  have 10: "(interfax_date_str s = s) = (84 \<notin> set s \<and> length s \<le> 16)"
  proof
    assume a: "interfax_date_str s = s"
    then have "length (take 16 (map (\<lambda>c. if c = 84 then 32 else c) s)) = length s"
      by (simp add: interfax_date_str_def)
    then have l: "length s \<le> 16" by simp
    with a have "map (\<lambda>c. if c = 84 then 32 else c) s = s" by (simp add: interfax_date_str_def)
    with l show "84 \<notin> set s \<and> length s \<le> 16" by (simp add: replace_T_fixed)
  next
    assume "84 \<notin> set s \<and> length s \<le> 16"
    then show "interfax_date_str s = s" by (simp add: interfax_date_str_def replace_T_fixed)
  qed
  have 11: "DATE_DOT_PATTERN_match (strip s) = Some (dd, mm, yyyy)
        \<longrightarrow> dot_date_to_iso s = yyyy @ str ''-'' @ mm @ str ''-'' @ dd"
    by (simp add: dot_date_to_iso_def)
  have 12: "\<not> iso_prefix_match s \<and> DATE_DOT_PATTERN_match s \<noteq> None
        \<longrightarrow> vedomosti_date_iso s = Some (dot_date_to_iso s)"
    by (simp add: vedomosti_date_iso_def)
  from 1 2 3 4 5 6 7 8 9 10 11 12 show ?thesis by blast
qed

text \<open>
  With surrounding blanks: a text that is no date comes back as it is, blanks included,
  while a dotted date is rewritten from its stripped form; the Vedomosti branch gives the
  rewritten form of a dotted date.
\<close>

theorem date_normalisation_witness:
  "DATE_DOT_PATTERN_match (strip (str '' not a date '')) = None
   \<and> dot_date_to_iso (str '' not a date '') = str '' not a date ''
   \<and> iso_prefix_match (str ''2026-02-05T12:18:00'')
   \<and> vedomosti_date_iso (str ''2026-02-05T12:18:00'') = Some (take 10 (str ''2026-02-05T12:18:00''))
   \<and> dot_date_to_iso (str '' 05.02.2026 '') = str ''2026-02-05''
   \<and> DATE_DOT_PATTERN_match (strip (str '' 31.12.2025 '')) =
        Some (str ''31'', str ''12'', str ''2025'')
   \<and> dot_date_to_iso (str '' 31.12.2025 '') = str ''2025-12-31''
   \<and> \<not> iso_prefix_match (str ''31.12.2025'')
   \<and> DATE_DOT_PATTERN_match (str ''31.12.2025'') \<noteq> None
   \<and> vedomosti_date_iso (str ''31.12.2025'') = Some (str ''2025-12-31'')"
proof -
  have a: "DATE_DOT_PATTERN_match (strip (str '' not a date '')) = None" by code_simp
  have b: "iso_prefix_match (str ''2026-02-05T12:18:00'')" by code_simp
  have c: "dot_date_to_iso (str '' 05.02.2026 '') = str ''2026-02-05''" by code_simp
  from date_normalisation[of "str '' not a date ''"] a
  have d: "dot_date_to_iso (str '' not a date '') = str '' not a date ''" by blast
  from date_normalisation[of "str ''2026-02-05T12:18:00''"] b
  have e: "vedomosti_date_iso (str ''2026-02-05T12:18:00'')
      = Some (take 10 (str ''2026-02-05T12:18:00''))" by blast
  have f: "DATE_DOT_PATTERN_match (strip (str '' 31.12.2025 '')) =
        Some (str ''31'', str ''12'', str ''2025'')" by code_simp
  have j: "str ''2025'' @ str ''-'' @ str ''12'' @ str ''-'' @ str ''31'' = str ''2025-12-31''"
    by code_simp
  from date_normalisation[of "str '' 31.12.2025 ''" "str ''31''" "str ''12''" "str ''2025''"] f j
  have g: "dot_date_to_iso (str '' 31.12.2025 '') = str ''2025-12-31''" by simp
  have h: "\<not> iso_prefix_match (str ''31.12.2025'')
      \<and> DATE_DOT_PATTERN_match (str ''31.12.2025'') \<noteq> None" by code_simp
  have k: "dot_date_to_iso (str ''31.12.2025'') = str ''2025-12-31''" by code_simp
  from date_normalisation[of "str ''31.12.2025''"] h k
  have i: "vedomosti_date_iso (str ''31.12.2025'') = Some (str ''2025-12-31'')" by simp
  from a b c d e f g h i show ?thesis by blast
qed




text \<open>
  Claim C8. When an accepted anchor has the URL of a record already in \<open>articles\<close>, its
  text replaces the kept title only if it is strictly longer and either at least 20%
  longer or the kept title is shorter than 10 characters; otherwise the kept title stays.
  (Precisely, the text replaces the title exactly when it is longer and either more than
  \<open>1.2\<close> times as long or the title is shorter than 10.) The URL, the date, the order of
  the records and every other record are unchanged.
\<close>

theorem longer_title_replaces:
  "map_of articles full_url = Some info \<longrightarrow>
     (\<exists>info'. map_of (record_anchor full_url text articles) full_url = Some info'
        \<and> url info' = url info \<and> date info' = date info
        \<and> title info' =
            (if length (title info) < length text
                \<and> ((of_nat (length (title info)) :: rat) * 1.2 < of_nat (length text)
                    \<or> length (title info) < 10)
             then text else title info)
        \<and> (title info' \<noteq> title info \<longrightarrow>
             length (title info) < length text
             \<and> ((of_nat (length (title info)) :: rat) * 1.2 \<le> of_nat (length text)
                 \<or> length (title info) < 10)))
     \<and> map fst (record_anchor full_url text articles) = map fst articles
     \<and> (\<forall>u. u \<noteq> full_url \<longrightarrow>
           map_of (record_anchor full_url text articles) u = map_of articles u)"
proof (intro impI)
  assume a: "map_of articles full_url = Some info"
  let ?f = "choose_title text"
  have r: "record_anchor full_url text articles =
      map (\<lambda>(k, v). if k = full_url then (k, ?f v) else (k, v)) articles"
    using a by (simp add: record_anchor_def)
  have 1: "map_of (record_anchor full_url text articles) full_url = Some (?f info)"
    unfolding r using a by (simp add: map_of_retitle)
  have 2: "url (?f info) = url info \<and> date (?f info) = date info"
    by (simp add: choose_title_fields)
  have 3: "title (?f info) =
            (if length (title info) < length text
                \<and> ((of_nat (length (title info)) :: rat) * 1.2 < of_nat (length text)
                    \<or> length (title info) < 10)
             then text else title info)"
    by (simp add: choose_title_def)
  have 4: "title (?f info) \<noteq> title info \<longrightarrow>
             length (title info) < length text
             \<and> ((of_nat (length (title info)) :: rat) * 1.2 \<le> of_nat (length text)
                 \<or> length (title info) < 10)"
    unfolding 3 by (auto simp: less_imp_le)
  have 5: "map fst (record_anchor full_url text articles) = map fst articles"
    unfolding r by (rule map_fst_retitle)
  have 6: "\<forall>u. u \<noteq> full_url \<longrightarrow>
           map_of (record_anchor full_url text articles) u = map_of articles u"
    unfolding r by (simp add: map_of_retitle_other)
  from 1 2 3 4 5 6
  show "(\<exists>info'. map_of (record_anchor full_url text articles) full_url = Some info'
        \<and> url info' = url info \<and> date info' = date info
        \<and> title info' =
            (if length (title info) < length text
                \<and> ((of_nat (length (title info)) :: rat) * 1.2 < of_nat (length text)
                    \<or> length (title info) < 10)
             then text else title info)
        \<and> (title info' \<noteq> title info \<longrightarrow>
             length (title info) < length text
             \<and> ((of_nat (length (title info)) :: rat) * 1.2 \<le> of_nat (length text)
                 \<or> length (title info) < 10)))
     \<and> map fst (record_anchor full_url text articles) = map fst articles
     \<and> (\<forall>u. u \<noteq> full_url \<longrightarrow>
           map_of (record_anchor full_url text articles) u = map_of articles u)"
    by blast
qed

text \<open>
  A kept title of 27 characters is replaced by a text of 36 and kept against a text of 29;
  a kept title of 10 characters is kept against a text of 12 (exactly 20% longer) and
  replaced by one of 13.
\<close>

theorem longer_title_replaces_witness:
  "map_of kept_articles rynok_url =
     Some \<lparr>date = str ''2024-07-02 19:43'', title = str ''Rynok akciy vyros na torgah'',
           url = rynok_url\<rparr>
   \<and> map (\<lambda>kv. title (snd kv))
         (record_anchor rynok_url (str ''Rynok akciy vyros na torgah segodnya'') kept_articles) =
       [str ''Rynok akciy vyros na torgah segodnya'']
   \<and> map (\<lambda>kv. title (snd kv))
         (record_anchor rynok_url (str ''Rynok akciy vyros na torgah 2'') kept_articles) =
       [str ''Rynok akciy vyros na torgah'']
   \<and> map (\<lambda>kv. title (snd kv)) (record_anchor rynok_url (str ''Rynok rost 2'') short_articles) =
       [str ''Rynok rost'']
   \<and> map (\<lambda>kv. title (snd kv)) (record_anchor rynok_url (str ''Rynok rost 24'') short_articles) =
       [str ''Rynok rost 24'']
   \<and> map fst (record_anchor rynok_url (str ''Rynok akciy vyros na torgah segodnya'') kept_articles) =
       [rynok_url]"
proof -
  have a: "map_of kept_articles rynok_url =
     Some \<lparr>date = str ''2024-07-02 19:43'', title = str ''Rynok akciy vyros na torgah'',
           url = rynok_url\<rparr>"
    by (simp add: kept_articles_def)
  have b: "map (\<lambda>kv. title (snd kv))
         (record_anchor rynok_url (str ''Rynok akciy vyros na torgah segodnya'') kept_articles) =
       [str ''Rynok akciy vyros na torgah segodnya'']"
    by code_simp
  have c: "map (\<lambda>kv. title (snd kv))
         (record_anchor rynok_url (str ''Rynok akciy vyros na torgah 2'') kept_articles) =
       [str ''Rynok akciy vyros na torgah'']"
    by code_simp
  have d: "map (\<lambda>kv. title (snd kv)) (record_anchor rynok_url (str ''Rynok rost 2'') short_articles) =
       [str ''Rynok rost'']"
    by code_simp
  have e: "map (\<lambda>kv. title (snd kv)) (record_anchor rynok_url (str ''Rynok rost 24'') short_articles) =
       [str ''Rynok rost 24'']"
    by code_simp
  from longer_title_replaces[of kept_articles rynok_url _ "str ''Rynok akciy vyros na torgah segodnya''"] a
  have "map fst (record_anchor rynok_url (str ''Rynok akciy vyros na torgah segodnya'') kept_articles) =
       map fst kept_articles"
    by blast
  then have f: "map fst (record_anchor rynok_url (str ''Rynok akciy vyros na torgah segodnya'') kept_articles) =
       [rynok_url]"
    by (simp add: kept_articles_def)
  from a b c d e f show ?thesis by blast
qed



text \<open>
  Claim C10. The AKM extractor emits an item only when both its title and its date text
  are non-empty: every item that \<open>get_akm_news\<close> returns has a non-empty date and a
  non-empty title, and a news block whose meta region gives no date text adds nothing.
  (The Finam extractor, in contrast, keeps an item whose URL carries no date; that is
  claim C7.)
\<close>

theorem akm_items_have_dates:
  "(\<forall>it\<in>set (get_akm_news isalnum soup). date it \<noteq> [] \<and> title it \<noteq> [])
   \<and> (akm_date_text block = [] \<longrightarrow> akm_item block = None)"
proof -
  have "akm_item block = None" if "akm_date_text block = []"
  proof (cases "akm_item block")
    case None
    then show ?thesis .
  next
    case (Some it)
    from akm_item_fields[OF Some] that show ?thesis by simp
  qed
  moreover have "date it \<noteq> [] \<and> title it \<noteq> []" if "it \<in> set (get_akm_news isalnum soup)" for it
    using get_akm_news_member[OF that] akm_item_fields by blast
  ultimately show ?thesis by blast
qed

text \<open>
  On a page with an undated block before a dated one, the undated block is dropped and
  the dated one is returned.
\<close>

theorem akm_items_have_dates_witness:
  "get_akm_news isalnum_ascii akm_page_undated =
     [\<lparr>date = str ''05 fevralya 2026 12:18'', title = str ''Rynok vyros''\<rparr>]
   \<and> akm_date_text (akm_undated_block, [akm_page_undated]) = []
   \<and> akm_item (akm_undated_block, [akm_page_undated]) = None
   \<and> date \<lparr>date = str ''05 fevralya 2026 12:18'', title = str ''Rynok vyros''\<rparr> \<noteq> []"
proof -
  have e: "get_akm_news isalnum_ascii akm_page_undated =
     [\<lparr>date = str ''05 fevralya 2026 12:18'', title = str ''Rynok vyros''\<rparr>]"
    by code_simp
  have d: "akm_date_text (akm_undated_block, [akm_page_undated]) = []"
    by code_simp
  from akm_items_have_dates[of isalnum_ascii akm_page_undated "(akm_undated_block, [akm_page_undated])"]
    e d show ?thesis by simp
qed

end
